theory Spec2Isabelle
  imports Main
begin

section \<open>EGN validation (src/src/middleware/security.js, validateEGN)\<close>

text \<open>
  The validator first tests the input against the regular expression
  \<^verbatim>\<open>/^\d{10}$/\<close>: exactly ten characters, each one of the ASCII digits.
  A digit string is the same sequence of bytes and of UTF-16 code units, so the
  byte strings of HOL describe the accepted inputs exactly.
\<close>

definition isDigit :: "char \<Rightarrow> bool" where
  "isDigit c = (let n = (of_char c :: nat) in 48 \<le> n \<and> n \<le> 57)"

definition matches_ten_digits :: "string \<Rightarrow> bool" where
  "matches_ten_digits egn = (length egn = 10 \<and> list_all isDigit egn)"

text \<open>
  \<^verbatim>\<open>parseInt(egn[i])\<close> on a one-character string: the digit's value, or NaN
  (here \<open>None\<close>) for any other character.
\<close>

definition parseInt_char :: "char \<Rightarrow> int option" where
  "parseInt_char c = (if isDigit c then Some (int (of_char c) - 48) else None)"

definition weights :: "int list" where
  "weights = [2, 4, 8, 5, 10, 9, 7, 3, 6]"

text \<open>
  The loop \<^verbatim>\<open>for (let i = 0; i < 9; i++) sum += parseInt(egn[i]) * weights[i]\<close>.
  A NaN summand turns the sum into NaN for good. The accumulator \<open>acc\<close> is the
  source's variable \<^verbatim>\<open>sum\<close>.
\<close>

function egn_sum_loop :: "string \<Rightarrow> nat \<Rightarrow> int option \<Rightarrow> int option" where
  "egn_sum_loop egn i acc =
     (if i < 9
      then egn_sum_loop egn (Suc i)
             (case (acc, parseInt_char (egn ! i)) of
                (Some s, Some d) \<Rightarrow> Some (s + d * weights ! i)
              | _ \<Rightarrow> None)
      else acc)"
  by pat_completeness auto
termination
  by (relation "measure (\<lambda>(egn, i, acc). 9 - i)") auto

definition validateEGN :: "string \<Rightarrow> bool" where
  "validateEGN egn =
     (if \<not> matches_ten_digits egn then False
      else
        (case egn_sum_loop egn 0 (Some 0) of
           None \<Rightarrow> False
         | Some sm \<Rightarrow>
             let checksum = sm mod 11;
                 checksum = (if checksum = 10 then 0 else checksum)
             in Some checksum = parseInt_char (egn ! 9)))"

text \<open>
  The checksum in the words of the specification: the weighted sum of the first nine
  digits modulo 11, with the remainder 10 mapped to 0.
\<close>

definition digit_value :: "char \<Rightarrow> int" where
  "digit_value c = int (of_char c) - 48"

definition spec_check_digit :: "string \<Rightarrow> int" where
  "spec_check_digit first9 =
     (let r = sum_list (map2 (\<lambda>c w. digit_value c * w) first9 weights) mod 11
      in if r = 10 then 0 else r)"


section \<open>IBAN validation (src/src/middleware/security.js, validateIBAN)\<close>

text \<open>
  \<^verbatim>\<open>iban.replace(/\s/g, '').toUpperCase()\<close>, for input in ASCII: the white-space characters
  are tab, line feed, vertical tab, form feed, carriage return and space, and the letters
  a to z are raised to A to Z.
\<close>

definition isSpace :: "char \<Rightarrow> bool" where
  "isSpace c = (let n = (of_char c :: nat) in (9 \<le> n \<and> n \<le> 13) \<or> n = 32)"

definition isUpper :: "char \<Rightarrow> bool" where
  "isUpper c = (let n = (of_char c :: nat) in 65 \<le> n \<and> n \<le> 90)"

definition toUpperCase :: "string \<Rightarrow> string" where
  "toUpperCase s =
     map (\<lambda>c. let n = (of_char c :: nat) in if 97 \<le> n \<and> n \<le> 122 then char_of (n - 32) else c) s"

definition cleanedIBAN_of :: "string \<Rightarrow> string" where
  "cleanedIBAN_of iban = toUpperCase (filter (\<lambda>c. \<not> isSpace c) iban)"

text \<open>The regular expression \<^verbatim>\<open>/^BG\d{2}[A-Z0-9]{4}\d{14}$/\<close>.\<close>

definition matches_bg_iban :: "string \<Rightarrow> bool" where
  "matches_bg_iban s =
     (length s = 22
      \<and> take 2 s = ''BG''
      \<and> list_all isDigit (take 2 (drop 2 s))
      \<and> list_all (\<lambda>c. isUpper c \<or> isDigit c) (take 4 (drop 4 s))
      \<and> list_all isDigit (drop 8 s))"

text \<open>\<^verbatim>\<open>toString()\<close> of a number that is not negative, and \<^verbatim>\<open>parseInt\<close> of a digit string.\<close>

function toString :: "int \<Rightarrow> string" where
  "toString n =
     (if n < 10 then [char_of (48 + n)]
      else toString (n div 10) @ [char_of (48 + n mod 10)])"
  by pat_completeness auto
termination
  by (relation "measure nat") auto

definition parseInt_digits :: "string \<Rightarrow> int" where
  "parseInt_digits s = foldl (\<lambda>n c. 10 * n + (int (of_char c) - 48)) 0 s"

text \<open>
  \<^verbatim>\<open>rearranged.replace(/[A-Z]/g, char => (char.charCodeAt(0) - 55).toString())\<close>.
\<close>

definition numericString_of :: "string \<Rightarrow> string" where
  "numericString_of rearranged =
     concat (map (\<lambda>c. if isUpper c then toString (int (of_char c) - 55) else [c]) rearranged)"

text \<open>
  The loop over \<^verbatim>\<open>numericString\<close>: append the next digit to \<^verbatim>\<open>remainder\<close>, and once it
  has nine characters replace it by its value modulo 97, written in decimal.
\<close>

fun mod97_loop :: "string \<Rightarrow> string \<Rightarrow> string" where
  "mod97_loop [] remainder = remainder"
| "mod97_loop (c # cs) remainder =
     (let r = remainder @ [c]
      in mod97_loop cs (if length r \<ge> 9 then toString (parseInt_digits r mod 97) else r))"

definition validateIBAN :: "string \<Rightarrow> bool" where
  "validateIBAN iban =
     (let cleanedIBAN = cleanedIBAN_of iban
      in if \<not> matches_bg_iban cleanedIBAN then False
         else
           (let rearranged = drop 4 cleanedIBAN @ take 4 cleanedIBAN;
                numericString = numericString_of rearranged;
                remainder = mod97_loop numericString []
            in parseInt_digits remainder mod 97 = 1))"


section \<open>Payment processor client (src/src/services/easypay-service.js)\<close>

definition MAX_RETRIES :: nat where
  "MAX_RETRIES = 3"

definition RETRY_DELAY :: nat where
  "RETRY_DELAY = 1000"

text \<open>
  What a rejected axios request carries: \<^verbatim>\<open>error.response\<close> with the HTTP status and
  \<^verbatim>\<open>data.message\<close> when the processor answered with an error status (4xx, 5xx), and no
  response when none arrived (timeout, network failure).
\<close>

datatype axios_error =
    ResponseError nat "string option"
  | NoResponse string

text \<open>
  How a run of \<^verbatim>\<open>retryRequest\<close> ends, how many times it invoked \<^verbatim>\<open>requestFn\<close>, and the
  delays (milliseconds) it slept, in order.
\<close>

datatype ('e, 'a) completion = Returned 'a | Threw 'e | ReturnedUndefined

record ('e, 'a) retry_run =
  completion :: "('e, 'a) completion"
  calls :: nat
  delays :: "nat list"

text \<open>
  \<^verbatim>\<open>for (let i = 0; i < retries; i++) { try { return await requestFn(); } catch (error) {
  if (i === retries - 1) throw error; delay = RETRY_DELAY * Math.pow(2, i); sleep(delay) } }\<close>.
  \<open>requestFn i\<close> is the outcome of the invocation made in iteration \<open>i\<close>. The catch block
  looks at nothing but the loop counter. With \<open>retries = 0\<close> the loop body never runs and the
  function returns \<^verbatim>\<open>undefined\<close>.
\<close>

function retryRequest_loop ::
  "(nat \<Rightarrow> 'e + 'a) \<Rightarrow> nat \<Rightarrow> nat \<Rightarrow> nat list \<Rightarrow> ('e, 'a) retry_run" where
  "retryRequest_loop requestFn retries i slept =
     (if i < retries then
        (case requestFn i of
           Inr r \<Rightarrow> \<lparr>completion = Returned r, calls = Suc i, delays = slept\<rparr>
         | Inl error \<Rightarrow>
             if i = retries - 1
             then \<lparr>completion = Threw error, calls = Suc i, delays = slept\<rparr>
             else retryRequest_loop requestFn retries (Suc i) (slept @ [RETRY_DELAY * 2 ^ i]))
      else \<lparr>completion = ReturnedUndefined, calls = i, delays = slept\<rparr>)"
  by pat_completeness auto
termination
  by (relation "measure (\<lambda>(requestFn, retries, i, slept). retries - i)") auto

definition retryRequest :: "(nat \<Rightarrow> 'e + 'a) \<Rightarrow> nat \<Rightarrow> ('e, 'a) retry_run" where
  "retryRequest requestFn retries = retryRequest_loop requestFn retries 0 []"

text \<open>
  Request bodies are JSON objects: the keys in the order the source writes them. Amounts
  are fixed-point with two fraction digits (the columns are \<^verbatim>\<open>DECIMAL(15, 2)\<close>), held
  here as a whole number of cents; \<^verbatim>\<open>parseFloat\<close> on such a value keeps its order.
\<close>

datatype json = JString string | JNumber int | JTimestamp int

type_synonym payload = "(string \<times> json) list"

text \<open>The fields of \<^verbatim>\<open>response.data\<close> that the client reads.\<close>

record response_data =
  d_transaction_id :: string
  d_status :: string
  d_reference_number :: string
  d_timestamp :: string
  d_fee :: "int option"
  d_provider_name :: string

record easypay_result =
  r_success :: bool
  r_transactionId :: string
  r_status :: string
  r_reference :: string
  r_timestamp :: string
  r_fee :: int
  r_providerName :: "string option"

text \<open>
  \<^verbatim>\<open>easyPayClient.post(url, data)\<close> is the remote processor: for a URL and a body, the
  outcome of each successive attempt. Every attempt that is made is also recorded, with
  its body, as an outbound request.
\<close>

type_synonym processor = "string \<Rightarrow> payload \<Rightarrow> nat \<Rightarrow> axios_error + response_data"

type_synonym outbound = "string \<times> payload"

record sepa_args =
  a_fromAccount :: string
  a_toAccount :: string
  a_amount :: int
  a_currency :: string
  a_recipientName :: string
  a_description :: string
  a_reference :: string

definition createSepaTransfer ::
  "processor \<Rightarrow> int \<Rightarrow> sepa_args \<Rightarrow> (string + easypay_result) \<times> outbound list" where
  "createSepaTransfer post now a =
     (let transferData =
            [(''from_account'', JString (a_fromAccount a)),
             (''to_account'', JString (a_toAccount a)),
             (''amount'', JNumber (a_amount a)),
             (''currency'', JString (a_currency a)),
             (''recipient_name'', JString (a_recipientName a)),
             (''description'', JString (a_description a)),
             (''reference'', JString (a_reference a)),
             (''transaction_type'', JString ''SEPA_TRANSFER''),
             (''timestamp'', JTimestamp now)];
          run = retryRequest (post ''/transfers/sepa'' transferData) MAX_RETRIES;
          sent = replicate (calls run) (''/transfers/sepa'', transferData)
      in case completion run of
           Returned d \<Rightarrow>
             (Inr \<lparr>r_success = True, r_transactionId = d_transaction_id d,
                   r_status = d_status d, r_reference = d_reference_number d,
                   r_timestamp = d_timestamp d,
                   r_fee = (case d_fee d of None \<Rightarrow> 0 | Some f \<Rightarrow> f),
                   r_providerName = None\<rparr>, sent)
         | Threw (ResponseError st msg) \<Rightarrow>
             (Inl (case msg of
                     None \<Rightarrow> ''Transfer failed''
                   | Some m \<Rightarrow> if m = [] then ''Transfer failed'' else m), sent)
         | Threw (NoResponse _) \<Rightarrow> (Inl ''Failed to create transfer. Please try again.'', sent)
         | ReturnedUndefined \<Rightarrow> (Inl ''Failed to create transfer. Please try again.'', sent))"

record bill_args =
  b_fromAccount :: string
  b_providerCode :: string
  b_billAccountNumber :: string
  b_amount :: int
  b_currency :: string
  b_description :: string

definition processBillPayment ::
  "processor \<Rightarrow> int \<Rightarrow> bill_args \<Rightarrow> (string + easypay_result) \<times> outbound list" where
  "processBillPayment post now a =
     (let paymentData =
            [(''from_account'', JString (b_fromAccount a)),
             (''provider_code'', JString (b_providerCode a)),
             (''bill_account_number'', JString (b_billAccountNumber a)),
             (''amount'', JNumber (b_amount a)),
             (''currency'', JString (b_currency a)),
             (''description'', JString (b_description a)),
             (''transaction_type'', JString ''BILL_PAYMENT''),
             (''timestamp'', JTimestamp now)];
          run = retryRequest (post ''/bills/pay'' paymentData) MAX_RETRIES;
          sent = replicate (calls run) (''/bills/pay'', paymentData)
      in case completion run of
           Returned d \<Rightarrow>
             (Inr \<lparr>r_success = True, r_transactionId = d_transaction_id d,
                   r_status = d_status d, r_reference = d_reference_number d,
                   r_timestamp = d_timestamp d,
                   r_fee = (case d_fee d of None \<Rightarrow> 0 | Some f \<Rightarrow> f),
                   r_providerName = Some (d_provider_name d)\<rparr>, sent)
         | Threw (ResponseError st msg) \<Rightarrow>
             (Inl (case msg of
                     None \<Rightarrow> ''Payment failed''
                   | Some m \<Rightarrow> if m = [] then ''Payment failed'' else m), sent)
         | Threw (NoResponse _) \<Rightarrow> (Inl ''Failed to process payment. Please try again.'', sent)
         | ReturnedUndefined \<Rightarrow> (Inl ''Failed to process payment. Please try again.'', sent))"


section \<open>The relational store (src/db/schema.sql; config/database.js in src/unnamed/part_012)\<close>

text \<open>
  Each table is the list of its rows. Rows keep the column names of the schema, with a
  prefix where two tables share a name. Timestamps are integers (milliseconds); \<^verbatim>\<open>NOW()\<close> is
  supplied by the caller.
\<close>

record user =
  u_id :: string
  egn :: string
  full_name :: string
  pin_hash :: string
  balance :: int
  account_number :: string
  phone_number :: "string option"
  email :: "string option"
  is_active :: bool
  failed_login_attempts :: int
  last_login_at :: "int option"

record txn =
  t_id :: string
  t_user_id :: string
  transaction_type :: string
  amount :: int
  currency :: string
  status :: string
  easypay_transaction_id :: "string option"
  reference_number :: "string option"
  recipient_account :: "string option"
  recipient_name :: "string option"
  bill_provider :: "string option"
  bill_account_number :: "string option"
  description :: string
  error_message :: "string option"
  ip_address :: string
  device_id :: string
  completed_at :: "int option"

record session =
  s_id :: string
  s_user_id :: string
  token_hash :: string
  s_ip_address :: string
  s_user_agent :: string
  expires_at :: int
  created_at :: int
  last_activity_at :: int

record bill_provider_row =
  provider_code :: string
  provider_name :: string
  bp_is_active :: bool

record audit_log =
  al_user_id :: "string option"
  al_action :: string
  al_resource :: string
  al_resource_id :: "string option"
  al_status :: string
  al_ip_address :: "string option"
  al_user_agent :: "string option"
  al_request_data :: "payload option"
  al_error_message :: "string option"

text \<open>
  The state a handler works on: the tables, and the requests that have gone out to the
  payment processor so far.
\<close>

record store =
  users :: "user list"
  transactions :: "txn list"
  sessions :: "session list"
  bill_providers :: "bill_provider_row list"
  audit_logs :: "audit_log list"
  easypay_requests :: "outbound list"

text \<open>
  The transaction helper: \<^verbatim>\<open>BEGIN\<close>, run the callback on the client connection,
  \<^verbatim>\<open>COMMIT\<close>; if the callback throws, \<^verbatim>\<open>ROLLBACK\<close> and throw the same error again.
  The callbacks of the routes issue their statements on \<^verbatim>\<open>users\<close> and
  \<^verbatim>\<open>transactions\<close> through the client, so a rollback restores these two
  tables. Audit entries are written through the pool (\<^verbatim>\<open>createAuditLog\<close> calls
  \<^verbatim>\<open>query\<close>) and requests already sent to the processor are outside the database:
  both stay.
\<close>

definition rollback :: "store \<Rightarrow> store \<Rightarrow> store" where
  "rollback before after = after\<lparr>users := users before, transactions := transactions before\<rparr>"

definition transaction :: "(store \<Rightarrow> (string + 'a) \<times> store) \<Rightarrow> store \<Rightarrow> (string + 'a) \<times> store" where
  "transaction callback st =
     (case callback st of
        (Inr result, st') \<Rightarrow> (Inr result, st')
      | (Inl error, st') \<Rightarrow> (Inl error, rollback st st'))"

section \<open>Audit helpers (utils/audit.js in src/unnamed/part_016, auditLogger.js in src/unnamed/part_014)\<close>

definition createAuditLog :: "audit_log \<Rightarrow> store \<Rightarrow> store" where
  "createAuditLog entry st = st\<lparr>audit_logs := audit_logs st @ [entry]\<rparr>"

definition logAuthAttempt ::
  "string \<Rightarrow> bool \<Rightarrow> string \<Rightarrow> string \<Rightarrow> string option \<Rightarrow> store \<Rightarrow> store" where
  "logAuthAttempt e ok ipAddress userAgent errorMessage =
     createAuditLog
       \<lparr>al_user_id = None, al_action = ''AUTH_ATTEMPT'', al_resource = ''authentication'',
        al_resource_id = Some e, al_status = (if ok then ''SUCCESS'' else ''FAILURE''),
        al_ip_address = Some ipAddress, al_user_agent = Some userAgent,
        al_request_data = None, al_error_message = errorMessage\<rparr>"

text \<open>
  The routes pass the constants \<^verbatim>\<open>'TRANSFER'\<close> and \<^verbatim>\<open>'BILL_PAYMENT'\<close> as the type, which
  \<^verbatim>\<open>toUpperCase\<close> leaves as they are.
\<close>

definition logTransaction ::
  "string \<Rightarrow> string \<Rightarrow> string \<Rightarrow> string \<Rightarrow> int \<Rightarrow> string option \<Rightarrow> store \<Rightarrow> store" where
  "logTransaction userId transactionType transactionId st_status amt errorMessage =
     createAuditLog
       \<lparr>al_user_id = Some userId, al_action = ''TRANSACTION_'' @ transactionType,
        al_resource = ''transaction'', al_resource_id = Some transactionId,
        al_status = st_status, al_ip_address = None, al_user_agent = None,
        al_request_data = Some [(''amount'', JNumber amt), (''type'', JString transactionType)],
        al_error_message = errorMessage\<rparr>"

section \<open>SQL statements of the money-movement routes\<close>

text \<open>
  \<^verbatim>\<open>INSERT INTO transactions\<close>: the primary key rejects a row whose id is already in
  the table; the statement then throws.
\<close>

definition insert_transaction :: "txn \<Rightarrow> store \<Rightarrow> string + store" where
  "insert_transaction row st =
     (if t_id row \<in> set (map t_id (transactions st))
      then Inl ''duplicate key value violates unique constraint \"transactions_pkey\"''
      else Inr (st\<lparr>transactions := transactions st @ [row]\<rparr>))"

text \<open>\<^verbatim>\<open>UPDATE users SET balance = balance + $1 WHERE id = $2\<close> (a debit passes a negated amount).\<close>

definition add_to_balance :: "int \<Rightarrow> string \<Rightarrow> store \<Rightarrow> store" where
  "add_to_balance amt userId st =
     st\<lparr>users := map (\<lambda>u. if u_id u = userId then u\<lparr>balance := balance u + amt\<rparr> else u) (users st)\<rparr>"

text \<open>
  \<^verbatim>\<open>UPDATE transactions SET status = $1, easypay_transaction_id = $2, reference_number = $3,
  completed_at = NOW() WHERE id = $4\<close>.
\<close>

definition complete_transaction :: "easypay_result \<Rightarrow> int \<Rightarrow> string \<Rightarrow> store \<Rightarrow> store" where
  "complete_transaction res now transactionId st =
     st\<lparr>transactions :=
          map (\<lambda>t. if t_id t = transactionId
                   then t\<lparr>status := r_status res,
                          easypay_transaction_id := Some (r_transactionId res),
                          reference_number := Some (r_reference res),
                          completed_at := Some now\<rparr>
                   else t) (transactions st)\<rparr>"

text \<open>\<^verbatim>\<open>UPDATE transactions SET status = 'FAILED', error_message = $2 WHERE id = $3\<close>.\<close>

definition fail_transaction :: "string \<Rightarrow> string \<Rightarrow> store \<Rightarrow> store" where
  "fail_transaction message transactionId st =
     st\<lparr>transactions :=
          map (\<lambda>t. if t_id t = transactionId
                   then t\<lparr>status := ''FAILED'', error_message := Some message\<rparr>
                   else t) (transactions st)\<rparr>"

definition record_sent :: "outbound list \<Rightarrow> store \<Rightarrow> store" where
  "record_sent sent st = st\<lparr>easypay_requests := easypay_requests st @ sent\<rparr>"


section \<open>External collaborators of one request\<close>

datatype face_outcome =
    FaceResult bool int
  | FaceServiceError

datatype jwt_outcome =
    Decoded string
  | TokenExpiredError
  | JsonWebTokenError
  | OtherVerifyError

text \<open>
  What a handler obtains from outside during one request: the clock, the identifiers
  drawn by \<^verbatim>\<open>uuidv4()\<close> and by the database default \<^verbatim>\<open>uuid_generate_v4()\<close>, the payment
  processor, bcrypt, the face service (verification gives \<open>FaceResult verified confidence\<close>
  or throws; enrolment gives \<open>None\<close> or throws an error with the message \<open>Some m\<close>),
  JWT signing and verification (\<open>Decoded userId\<close>, or an error thrown by
  \<^verbatim>\<open>jwt.verify\<close>, by name), and SHA-256.
\<close>

record env =
  now :: int
  uuidv4 :: string
  db_uuid :: string
  post :: processor
  bcrypt_compare :: "string \<Rightarrow> string \<Rightarrow> bool"
  bcrypt_hash :: "string \<Rightarrow> string"
  verifyFace :: "string \<Rightarrow> string \<Rightarrow> face_outcome"
  enrollFace :: "string \<Rightarrow> string \<Rightarrow> string option"
  generateToken :: "string \<Rightarrow> string \<Rightarrow> string"
  jwt_verify :: "string \<Rightarrow> jwt_outcome"
  sha256 :: "string \<Rightarrow> string"

record req_meta =
  m_ipAddress :: string
  m_userAgent :: string
  m_deviceId :: "string option"

text \<open>\<^verbatim>\<open>req.headers['x-device-id'] || 'unknown'\<close>.\<close>

definition deviceId_of :: "req_meta \<Rightarrow> string" where
  "deviceId_of meta =
     (case m_deviceId meta of None \<Rightarrow> ''unknown'' | Some d \<Rightarrow> if d = [] then ''unknown'' else d)"

text \<open>
  A JSON response: the success body, or \<open>Err status error extra\<close> for
  \<^verbatim>\<open>res.status(status).json({success: false, error, ...extra})\<close>.
\<close>

datatype 'a response = Ok 'a | Err nat string payload

section \<open>POST /api/transfers/send (src/src/routes/deposits.js)\<close>

record transfer_body =
  tb_amount :: int
  tb_recipient_account :: string
  tb_recipient_name :: string
  tb_description :: "string option"
  tb_currency :: "string option"

text \<open>
  The callback handed to the transaction helper: insert the PENDING row, debit, call the
  processor; on success store the processor's answer; in the catch block credit the amount
  back, mark the row FAILED with the message, and throw the error again.
\<close>

definition transfer_callback ::
  "env \<Rightarrow> string \<Rightarrow> user \<Rightarrow> string \<Rightarrow> req_meta \<Rightarrow> int \<Rightarrow> string \<Rightarrow> string \<Rightarrow> string \<Rightarrow> string
     \<Rightarrow> store \<Rightarrow> (string + unit) \<times> store" where
  "transfer_callback env userId usr transactionId meta amt cur recipient recipientName descr client =
     (case insert_transaction
             \<lparr>t_id = transactionId, t_user_id = userId, transaction_type = ''TRANSFER'',
              amount = amt, currency = cur, status = ''PENDING'',
              easypay_transaction_id = None, reference_number = None,
              recipient_account = Some recipient, recipient_name = Some recipientName,
              bill_provider = None, bill_account_number = None,
              description = descr, error_message = None,
              ip_address = m_ipAddress meta, device_id = deviceId_of meta,
              completed_at = None\<rparr> client of
        Inl error \<Rightarrow> (Inl error, client)
      | Inr client1 \<Rightarrow>
          (let client2 = add_to_balance (- amt) userId client1 in
           case createSepaTransfer (post env) (now env)
                  \<lparr>a_fromAccount = account_number usr, a_toAccount = recipient,
                   a_amount = amt, a_currency = cur, a_recipientName = recipientName,
                   a_description = descr, a_reference = transactionId\<rparr> of
             (Inr transferResult, sent) \<Rightarrow>
               (Inr (),
                logTransaction userId ''TRANSFER'' transactionId ''SUCCESS'' amt None
                  (complete_transaction transferResult (now env) transactionId
                     (record_sent sent client2)))
           | (Inl easypayError, sent) \<Rightarrow>
               (Inl easypayError,
                logTransaction userId ''TRANSFER'' transactionId ''FAILURE'' amt (Some easypayError)
                  (fail_transaction easypayError transactionId
                     (add_to_balance amt userId (record_sent sent client2))))))"

text \<open>
  The handler, after \<^verbatim>\<open>verifyToken\<close> has set \<^verbatim>\<open>req.user.id\<close> (\<open>userId\<close>). The success body
  is built from the transaction row read back and the balance read back.
\<close>

definition transfers_send ::
  "env \<Rightarrow> string \<Rightarrow> req_meta \<Rightarrow> transfer_body \<Rightarrow> store \<Rightarrow> (txn \<times> int) response \<times> store" where
  "transfers_send env userId meta body st =
     (let descr = (case tb_description body of None \<Rightarrow> [] | Some d \<Rightarrow> d);
          cur = (case tb_currency body of None \<Rightarrow> ''BGN'' | Some c \<Rightarrow> c);
          amt = tb_amount body;
          transactionId = uuidv4 env
      in case filter (\<lambda>u. u_id u = userId) (users st) of
           [] \<Rightarrow> (Err 404 ''User not found'' [], st)
         | usr # _ \<Rightarrow>
             if balance usr < amt then
               (Err 400 ''Insufficient balance'' [],
                logTransaction userId ''TRANSFER'' transactionId ''FAILURE'' amt
                  (Some ''Insufficient balance'') st)
             else
               (case transaction
                       (transfer_callback env userId usr transactionId meta amt cur
                          (tb_recipient_account body) (tb_recipient_name body) descr) st of
                  (Inl error, st') \<Rightarrow>
                    (Err 500 (if error = [] then ''Transfer failed. Please try again.'' else error) [],
                     st')
                | (Inr _, st') \<Rightarrow>
                    (case filter (\<lambda>u. u_id u = userId) (users st') of
                       [] \<Rightarrow>
                         (Err 500 ''Cannot read properties of undefined (reading 'balance')'' [], st')
                     | u # _ \<Rightarrow>
                         (case filter (\<lambda>t. t_id t = transactionId) (transactions st') of
                            [] \<Rightarrow>
                              (Err 500 ''Cannot read properties of undefined (reading 'id')'' [], st')
                          | tx # _ \<Rightarrow> (Ok (tx, balance u), st')))))"

section \<open>POST /api/bills/pay (src/src/routes/bills.js)\<close>

record bill_body =
  bb_amount :: int
  bb_provider_code :: string
  bb_bill_account_number :: string
  bb_description :: "string option"
  bb_currency :: "string option"

definition bill_callback ::
  "env \<Rightarrow> string \<Rightarrow> user \<Rightarrow> string \<Rightarrow> req_meta \<Rightarrow> int \<Rightarrow> string \<Rightarrow> string \<Rightarrow> string \<Rightarrow> string
     \<Rightarrow> store \<Rightarrow> (string + unit) \<times> store" where
  "bill_callback env userId usr transactionId meta amt cur providerCode billAccount descr client =
     (case insert_transaction
             \<lparr>t_id = transactionId, t_user_id = userId, transaction_type = ''BILL_PAYMENT'',
              amount = amt, currency = cur, status = ''PENDING'',
              easypay_transaction_id = None, reference_number = None,
              recipient_account = None, recipient_name = None,
              bill_provider = Some providerCode, bill_account_number = Some billAccount,
              description = descr, error_message = None,
              ip_address = m_ipAddress meta, device_id = deviceId_of meta,
              completed_at = None\<rparr> client of
        Inl error \<Rightarrow> (Inl error, client)
      | Inr client1 \<Rightarrow>
          (let client2 = add_to_balance (- amt) userId client1 in
           case processBillPayment (post env) (now env)
                  \<lparr>b_fromAccount = account_number usr, b_providerCode = providerCode,
                   b_billAccountNumber = billAccount, b_amount = amt, b_currency = cur,
                   b_description = descr\<rparr> of
             (Inr paymentResult, sent) \<Rightarrow>
               (Inr (),
                logTransaction userId ''BILL_PAYMENT'' transactionId ''SUCCESS'' amt None
                  (complete_transaction paymentResult (now env) transactionId
                     (record_sent sent client2)))
           | (Inl easypayError, sent) \<Rightarrow>
               (Inl easypayError,
                logTransaction userId ''BILL_PAYMENT'' transactionId ''FAILURE'' amt (Some easypayError)
                  (fail_transaction easypayError transactionId
                     (add_to_balance amt userId (record_sent sent client2))))))"

definition bills_pay ::
  "env \<Rightarrow> string \<Rightarrow> req_meta \<Rightarrow> bill_body \<Rightarrow> store \<Rightarrow> (txn \<times> string \<times> int) response \<times> store" where
  "bills_pay env userId meta body st =
     (let descr = (case bb_description body of None \<Rightarrow> [] | Some d \<Rightarrow> d);
          cur = (case bb_currency body of None \<Rightarrow> ''BGN'' | Some c \<Rightarrow> c);
          amt = bb_amount body;
          transactionId = uuidv4 env
      in case filter (\<lambda>u. u_id u = userId) (users st) of
           [] \<Rightarrow> (Err 404 ''User not found'' [], st)
         | usr # _ \<Rightarrow>
             if balance usr < amt then
               (Err 400 ''Insufficient balance'' [],
                logTransaction userId ''BILL_PAYMENT'' transactionId ''FAILURE'' amt
                  (Some ''Insufficient balance'') st)
             else
               (case filter (\<lambda>p. provider_code p = bb_provider_code body \<and> bp_is_active p)
                       (bill_providers st) of
                  [] \<Rightarrow> (Err 404 ''Bill provider not found or inactive'' [], st)
                | provider # _ \<Rightarrow>
                    (case transaction
                            (bill_callback env userId usr transactionId meta amt cur
                               (bb_provider_code body) (bb_bill_account_number body) descr) st of
                       (Inl error, st') \<Rightarrow>
                         (Err 500 (if error = [] then ''Bill payment failed. Please try again.''
                                   else error) [],
                          st')
                     | (Inr _, st') \<Rightarrow>
                         (case filter (\<lambda>u. u_id u = userId) (users st') of
                            [] \<Rightarrow>
                              (Err 500 ''Cannot read properties of undefined (reading 'balance')'' [],
                               st')
                          | u # _ \<Rightarrow>
                              (case filter (\<lambda>t. t_id t = transactionId) (transactions st') of
                                 [] \<Rightarrow>
                                   (Err 500 ''Cannot read properties of undefined (reading 'id')'' [],
                                    st')
                               | tx # _ \<Rightarrow> (Ok (tx, provider_name provider, balance u), st'))))))"


section \<open>Sessions (src/src/middleware/auth.js)\<close>

text \<open>
  \<^verbatim>\<open>createSession\<close>: the row gets its id from the database default and expires one hour
  (in milliseconds) after the call. An error of the INSERT is caught and logged, so a
  clash of the primary key leaves the table as it was.
\<close>

definition createSession :: "env \<Rightarrow> string \<Rightarrow> string \<Rightarrow> string \<Rightarrow> string \<Rightarrow> store \<Rightarrow> store" where
  "createSession env userId token ipAddress userAgent st =
     (let tokenHash = sha256 env token;
          expiresAt = now env + 3600000
      in if db_uuid env \<in> set (map s_id (sessions st)) then st
         else st\<lparr>sessions := sessions st @
                  [\<lparr>s_id = db_uuid env, s_user_id = userId, token_hash = tokenHash,
                    s_ip_address = ipAddress, s_user_agent = userAgent,
                    expires_at = expiresAt, created_at = now env,
                    last_activity_at = now env\<rparr>]\<rparr>)"

text \<open>\<^verbatim>\<open>logout\<close>: \<^verbatim>\<open>DELETE FROM sessions WHERE user_id = $1\<close>.\<close>

definition logout :: "string \<Rightarrow> store \<Rightarrow> store" where
  "logout userId st = st\<lparr>sessions := filter (\<lambda>s. s_user_id s \<noteq> userId) (sessions st)\<rparr>"





section \<open>Authentication routes (src/src/routes/auth.js)\<close>

text \<open>JavaScript truthiness of an optional string field: present and not empty.\<close>

definition truthy :: "string option \<Rightarrow> bool" where
  "truthy v = (case v of None \<Rightarrow> False | Some x \<Rightarrow> x \<noteq> [])"

text \<open>\<^verbatim>\<open>UPDATE users SET failed_login_attempts = failed_login_attempts + 1 WHERE id = $1\<close>.\<close>

definition increment_failed_attempts :: "string \<Rightarrow> store \<Rightarrow> store" where
  "increment_failed_attempts userId st =
     st\<lparr>users := map (\<lambda>u. if u_id u = userId
                           then u\<lparr>failed_login_attempts := failed_login_attempts u + 1\<rparr>
                           else u) (users st)\<rparr>"

text \<open>\<^verbatim>\<open>UPDATE users SET failed_login_attempts = 0, last_login_at = NOW() WHERE id = $1\<close>.\<close>

definition reset_failed_attempts :: "int \<Rightarrow> string \<Rightarrow> store \<Rightarrow> store" where
  "reset_failed_attempts t userId st =
     st\<lparr>users := map (\<lambda>u. if u_id u = userId
                           then u\<lparr>failed_login_attempts := 0, last_login_at := Some t\<rparr>
                           else u) (users st)\<rparr>"

record login_body =
  lb_egn :: string
  lb_pin :: string
  lb_face_image :: "string option"

text \<open>
  The face factor of the login: not asked for when no image is supplied; otherwise the
  outcome of \<^verbatim>\<open>verifyFace(user.id, face_image)\<close>.
\<close>

definition face_factor :: "env \<Rightarrow> user \<Rightarrow> login_body \<Rightarrow> face_outcome option" where
  "face_factor env usr body =
     (case lb_face_image body of
        None \<Rightarrow> None
      | Some img \<Rightarrow> if img = [] then None else Some (verifyFace env (u_id usr) img))"

text \<open>
  POST /api/auth/verify. The success body carries the token and the fields of the user
  row read at the start of the request.
\<close>

definition auth_verify ::
  "env \<Rightarrow> req_meta \<Rightarrow> login_body \<Rightarrow> store \<Rightarrow> (string \<times> user) response \<times> store" where
  "auth_verify env meta body st =
     (let ipAddress = m_ipAddress meta; userAgent = m_userAgent meta; e = lb_egn body
      in case filter (\<lambda>u. egn u = e) (users st) of
           [] \<Rightarrow>
             (Err 401 ''Invalid credentials'' [],
              logAuthAttempt e False ipAddress userAgent (Some ''User not found'') st)
         | usr # _ \<Rightarrow>
             if \<not> is_active usr then
               (Err 403 ''Account is deactivated'' [],
                logAuthAttempt e False ipAddress userAgent (Some ''Account deactivated'') st)
             else if failed_login_attempts usr \<ge> 5 then
               (Err 403 ''Account locked due to too many failed attempts. Please contact support.'' [],
                logAuthAttempt e False ipAddress userAgent (Some ''Account locked'') st)
             else if \<not> bcrypt_compare env (lb_pin body) (pin_hash usr) then
               (Err 401 ''Invalid credentials'' [],
                logAuthAttempt e False ipAddress userAgent (Some ''Invalid PIN'')
                  (increment_failed_attempts (u_id usr) st))
             else
               (case face_factor env usr body of
                  Some (FaceResult False confidence) \<Rightarrow>
                    (Err 401 ''Face verification failed'' [(''confidence'', JNumber confidence)],
                     logAuthAttempt e False ipAddress userAgent (Some ''Face verification failed'')
                       (increment_failed_attempts (u_id usr) st))
                | _ \<Rightarrow>
                    (let token = generateToken env (u_id usr) (egn usr)
                     in (Ok (token, usr),
                         logAuthAttempt e True ipAddress userAgent None
                           (createSession env (u_id usr) token ipAddress userAgent
                              (reset_failed_attempts (now env) (u_id usr) st))))))"

record register_body =
  rb_egn :: string
  rb_full_name :: string
  rb_pin :: string
  rb_account_number :: string
  rb_phone_number :: "string option"
  rb_email :: "string option"
  rb_face_image :: "string option"

text \<open>
  \<^verbatim>\<open>INSERT INTO users\<close>: the primary key and the two UNIQUE columns reject a clashing
  row; the other columns take their defaults.
\<close>

definition insert_user :: "user \<Rightarrow> store \<Rightarrow> string + store" where
  "insert_user row st =
     (if u_id row \<in> set (map u_id (users st))
      then Inl ''duplicate key value violates unique constraint \"users_pkey\"''
      else if egn row \<in> set (map egn (users st))
      then Inl ''duplicate key value violates unique constraint \"users_egn_key\"''
      else if account_number row \<in> set (map account_number (users st))
      then Inl ''duplicate key value violates unique constraint \"users_account_number_key\"''
      else Inr (st\<lparr>users := users st @ [row]\<rparr>))"

definition register_callback ::
  "env \<Rightarrow> string \<Rightarrow> string \<Rightarrow> register_body \<Rightarrow> store \<Rightarrow> (string + unit) \<times> store" where
  "register_callback env userId pinHash body client =
     (case insert_user
             \<lparr>u_id = userId, egn = rb_egn body, full_name = rb_full_name body,
              pin_hash = pinHash, balance = 0, account_number = rb_account_number body,
              phone_number = rb_phone_number body, email = rb_email body,
              is_active = True, failed_login_attempts = 0, last_login_at = None\<rparr> client of
        Inl error \<Rightarrow> (Inl error, client)
      | Inr client1 \<Rightarrow>
          (case rb_face_image body of
             None \<Rightarrow> (Inr (), client1)
           | Some img \<Rightarrow>
               if img = [] then (Inr (), client1)
               else
                 (case enrollFace env userId img of
                    None \<Rightarrow> (Inr (), client1)
                  | Some _ \<Rightarrow> (Inl ''Face enrollment failed. Please try again.'', client1))))"

text \<open>POST /api/auth/register. The two Cyrillic letters of the message are their UTF-8 bytes.\<close>

definition auth_register ::
  "env \<Rightarrow> req_meta \<Rightarrow> register_body \<Rightarrow> store \<Rightarrow> string response \<times> store" where
  "auth_register env meta body st =
     (case filter (\<lambda>u. egn u = rb_egn body \<or> account_number u = rb_account_number body)
             (users st) of
        _ # _ \<Rightarrow>
          (Err 400 (''User with this E'' @ [CHR 0xD0, CHR 0x93, CHR 0xD0, CHR 0x9D]
                      @ '' or account number already exists'') [], st)
      | [] \<Rightarrow>
          (let pinHash = bcrypt_hash env (rb_pin body);
               userId = uuidv4 env
           in case transaction (register_callback env userId pinHash body) st of
                (Inl error, st') \<Rightarrow>
                  (Err 500 (if error = [] then ''Registration failed'' else error) [],
                   logAuthAttempt (rb_egn body) False (m_ipAddress meta) (m_userAgent meta)
                     (Some error) st')
              | (Inr _, st') \<Rightarrow>
                  (Ok userId,
                   logAuthAttempt (rb_egn body) True (m_ipAddress meta) (m_userAgent meta)
                     None st')))"

text \<open>
  POST /api/auth/logout: always answers success; deletes the sessions of the user the
  bearer token decodes to, if it decodes.
\<close>

definition auth_logout :: "env \<Rightarrow> string option \<Rightarrow> store \<Rightarrow> unit response \<times> store" where
  "auth_logout env authHeader st =
     (case authHeader of
        None \<Rightarrow> (Ok (), st)
      | Some h \<Rightarrow>
          if take 7 h = ''Bearer '' then
            (case jwt_verify env (drop 7 h) of
               Decoded userId \<Rightarrow> (Ok (), logout userId st)
             | _ \<Rightarrow> (Ok (), st))
          else (Ok (), st))"

record enroll_body =
  eb_egn :: "string option"
  eb_pin :: "string option"
  eb_face_image :: "string option"

text \<open>POST /api/auth/enroll-face: no statement of this handler writes to the store.\<close>

definition auth_enroll_face :: "env \<Rightarrow> enroll_body \<Rightarrow> store \<Rightarrow> unit response \<times> store" where
  "auth_enroll_face env body st =
     (case (eb_egn body, eb_pin body, eb_face_image body) of
        (Some e, Some pin, Some img) \<Rightarrow>
          if e = [] \<or> pin = [] \<or> img = [] then (Err 400 ''Missing required fields'' [], st)
          else
            (case filter (\<lambda>u. egn u = e) (users st) of
               [] \<Rightarrow> (Err 401 ''Invalid credentials'' [], st)
             | usr # _ \<Rightarrow>
                 if \<not> bcrypt_compare env pin (pin_hash usr)
                 then (Err 401 ''Invalid credentials'' [], st)
                 else
                   (case enrollFace env (u_id usr) img of
                      None \<Rightarrow> (Ok (), st)
                    | Some m \<Rightarrow>
                        (Err 500 (if m = [] then ''Face enrollment failed'' else m) [], st)))
      | _ \<Rightarrow> (Err 400 ''Missing required fields'' [], st))"

text \<open>One call of the authentication API, and a sequence of calls, each with its own
  collaborators.\<close>

datatype auth_call =
    Register req_meta register_body
  | Verify req_meta login_body
  | Logout "string option"
  | EnrollFace enroll_body

fun auth_api :: "env \<Rightarrow> auth_call \<Rightarrow> store \<Rightarrow> store" where
  "auth_api env (Register meta body) st = snd (auth_register env meta body st)"
| "auth_api env (Verify meta body) st = snd (auth_verify env meta body st)"
| "auth_api env (Logout authHeader) st = snd (auth_logout env authHeader st)"
| "auth_api env (EnrollFace body) st = snd (auth_enroll_face env body st)"

fun run_auth_api :: "(env \<times> auth_call) list \<Rightarrow> store \<Rightarrow> store" where
  "run_auth_api [] st = st"
| "run_auth_api ((env, c) # cs) st = run_auth_api cs (auth_api env c st)"


section \<open>A concrete kiosk: one user, one bill provider\<close>

text \<open>
  The scenario of the specification: a user with balance 1000.00 (100000 cents). The
  stand-ins for bcrypt, SHA-256 and JWT are simple injective encodings; the face service
  is unreachable.
\<close>

definition kiosk_user :: user where
  "kiosk_user =
     \<lparr>u_id = ''u1'', egn = ''7523169263'', full_name = ''Ivan Petrov'',
      pin_hash = ''bcrypt:1234'', balance = 100000,
      account_number = ''BG80BNBG96611020345678'', phone_number = None, email = None,
      is_active = True, failed_login_attempts = 0, last_login_at = None\<rparr>"

definition kiosk_store :: store where
  "kiosk_store =
     \<lparr>users = [kiosk_user], transactions = [], sessions = [],
      bill_providers = [\<lparr>provider_code = ''CEZ_BG'', provider_name = ''CEZ Bulgaria'',
                         bp_is_active = True\<rparr>],
      audit_logs = [], easypay_requests = []\<rparr>"

definition kiosk_meta :: req_meta where
  "kiosk_meta = \<lparr>m_ipAddress = ''10.0.0.7'', m_userAgent = ''kiosk'', m_deviceId = Some ''K-27''\<rparr>"

text \<open>A processor that answers every attempt with HTTP 500, and one that accepts.\<close>

definition failing_processor :: processor where
  "failing_processor url data k = Inl (ResponseError 500 (Some ''Processor unavailable''))"

definition accepting_processor :: processor where
  "accepting_processor url data k =
     Inr \<lparr>d_transaction_id = ''EP-77'', d_status = ''COMPLETED'', d_reference_number = ''REF-77'',
          d_timestamp = ''2025-01-01T00:00:00Z'', d_fee = None, d_provider_name = ''CEZ Bulgaria''\<rparr>"

definition kiosk_env :: "processor \<Rightarrow> env" where
  "kiosk_env p =
     \<lparr>now = 1000, uuidv4 = ''tx1'', db_uuid = ''s1'', post = p,
      bcrypt_compare = (\<lambda>pin h. h = ''bcrypt:'' @ pin),
      bcrypt_hash = (\<lambda>pin. ''bcrypt:'' @ pin),
      verifyFace = (\<lambda>userId img. FaceServiceError),
      enrollFace = (\<lambda>userId img. None),
      generateToken = (\<lambda>userId e. ''tokenB''),
      jwt_verify = (\<lambda>t. if t = ''tokenA'' \<or> t = ''tokenB'' then Decoded ''u1''
                        else JsonWebTokenError),
      sha256 = (\<lambda>t. ''sha256:'' @ t)\<rparr>"

definition transfer_of :: "int \<Rightarrow> transfer_body" where
  "transfer_of amt =
     \<lparr>tb_amount = amt, tb_recipient_account = ''BG95UNCR70001523456789'',
      tb_recipient_name = ''Maria Ivanova'', tb_description = None, tb_currency = None\<rparr>"

definition bill_of :: "int \<Rightarrow> bill_body" where
  "bill_of amt =
     \<lparr>bb_amount = amt, bb_provider_code = ''CEZ_BG'', bb_bill_account_number = ''300123'',
      bb_description = None, bb_currency = None\<rparr>"


section \<open>Vocabulary for the login properties\<close>

definition issues_token :: "(string \<times> user) response \<Rightarrow> bool" where
  "issues_token r = (case r of Ok _ \<Rightarrow> True | Err _ _ _ \<Rightarrow> False)"

definition is_auth_error :: "(string \<times> user) response \<Rightarrow> bool" where
  "is_auth_error r = (case r of Ok _ \<Rightarrow> False | Err st _ _ \<Rightarrow> st = 401 \<or> st = 403)"

definition account_locked :: "(string \<times> user) response" where
  "account_locked =
     Err 403 ''Account locked due to too many failed attempts. Please contact support.'' []"

text \<open>
  The login condition in the words of the specification: the PIN matches, and no face
  image was supplied or the verifier returned verified = true, and the account is active,
  and the failed-attempt counter is below 5.
\<close>

definition spec_login_gate :: "env \<Rightarrow> login_body \<Rightarrow> store \<Rightarrow> bool" where
  "spec_login_gate env body st =
     (case filter (\<lambda>u. egn u = lb_egn body) (users st) of
        [] \<Rightarrow> False
      | usr # _ \<Rightarrow>
          bcrypt_compare env (lb_pin body) (pin_hash usr)
          \<and> (case lb_face_image body of
                None \<Rightarrow> True
              | Some img \<Rightarrow>
                  (case verifyFace env (u_id usr) img of
                     FaceResult verified _ \<Rightarrow> verified
                   | FaceServiceError \<Rightarrow> False))
          \<and> is_active usr
          \<and> failed_login_attempts usr < 5)"

text \<open>
  The same condition with the face factor as the handler treats it: an empty image counts
  as none, and a verifier that throws does not stop the login.
\<close>

definition login_gate :: "env \<Rightarrow> login_body \<Rightarrow> store \<Rightarrow> bool" where
  "login_gate env body st =
     (case filter (\<lambda>u. egn u = lb_egn body) (users st) of
        [] \<Rightarrow> False
      | usr # _ \<Rightarrow>
          bcrypt_compare env (lb_pin body) (pin_hash usr)
          \<and> (case lb_face_image body of
                None \<Rightarrow> True
              | Some img \<Rightarrow>
                  img = [] \<or>
                  (case verifyFace env (u_id usr) img of
                     FaceResult verified _ \<Rightarrow> verified
                   | FaceServiceError \<Rightarrow> True))
          \<and> is_active usr
          \<and> failed_login_attempts usr < 5)"

text \<open>A login attempt for the identity number \<open>e\<close> whose PIN does not match the hash \<open>h\<close>.\<close>

definition is_failed_pin_attempt :: "string \<Rightarrow> string \<Rightarrow> env \<times> auth_call \<Rightarrow> bool" where
  "is_failed_pin_attempt e h a =
     (case snd a of
        Verify meta body \<Rightarrow> lb_egn body = e \<and> \<not> bcrypt_compare (fst a) (lb_pin body) h
      | _ \<Rightarrow> False)"

definition login_of :: "string \<Rightarrow> string option \<Rightarrow> login_body" where
  "login_of pin face = \<lparr>lb_egn = ''7523169263'', lb_pin = pin, lb_face_image = face\<rparr>"


text \<open>The kiosk user after five failed attempts.\<close>

definition locked_user :: user where
  "locked_user = kiosk_user\<lparr>failed_login_attempts := 5\<rparr>"

definition locked_store :: store where
  "locked_store = kiosk_store\<lparr>users := [locked_user]\<rparr>"

section \<open>Vocabulary for the session properties\<close>








section \<open>Overlapping requests to the authentication routes\<close>

text \<open>
  The handlers are asynchronous: while one request waits at an \<^verbatim>\<open>await\<close>, statements of
  other requests run. A login reads the user's row once, with the SELECT at its start, and
  everything after it (the tests of \<^verbatim>\<open>is_active\<close> and of the counter, the PIN and face
  checks, the choice of the UPDATE) works on that row as read, while the UPDATE itself is
  applied to the table as it is when the statement runs. \<open>auth_verify_rest\<close> is the handler
  after its SELECT, given the rows that the SELECT returned. Each of its branches issues at
  most one statement on \<^verbatim>\<open>users\<close>; its other statements add audit and session rows, which
  no authentication route reads, so for the users table and for the answers nothing is
  lost by running the rest in one piece.
\<close>

definition auth_verify_rest ::
  "env \<Rightarrow> req_meta \<Rightarrow> login_body \<Rightarrow> user list \<Rightarrow> store \<Rightarrow> (string \<times> user) response \<times> store" where
  "auth_verify_rest env meta body rows st =
     (let ipAddress = m_ipAddress meta; userAgent = m_userAgent meta; e = lb_egn body
      in case rows of
           [] \<Rightarrow>
             (Err 401 ''Invalid credentials'' [],
              logAuthAttempt e False ipAddress userAgent (Some ''User not found'') st)
         | usr # _ \<Rightarrow>
             if \<not> is_active usr then
               (Err 403 ''Account is deactivated'' [],
                logAuthAttempt e False ipAddress userAgent (Some ''Account deactivated'') st)
             else if failed_login_attempts usr \<ge> 5 then
               (Err 403 ''Account locked due to too many failed attempts. Please contact support.'' [],
                logAuthAttempt e False ipAddress userAgent (Some ''Account locked'') st)
             else if \<not> bcrypt_compare env (lb_pin body) (pin_hash usr) then
               (Err 401 ''Invalid credentials'' [],
                logAuthAttempt e False ipAddress userAgent (Some ''Invalid PIN'')
                  (increment_failed_attempts (u_id usr) st))
             else
               (case face_factor env usr body of
                  Some (FaceResult False confidence) \<Rightarrow>
                    (Err 401 ''Face verification failed'' [(''confidence'', JNumber confidence)],
                     logAuthAttempt e False ipAddress userAgent (Some ''Face verification failed'')
                       (increment_failed_attempts (u_id usr) st))
                | _ \<Rightarrow>
                    (let token = generateToken env (u_id usr) (egn usr)
                     in (Ok (token, usr),
                         logAuthAttempt e True ipAddress userAgent None
                           (createSession env (u_id usr) token ipAddress userAgent
                              (reset_failed_attempts (now env) (u_id usr) st))))))"

text \<open>
  The registration handler after its existence check has found no row: hash the PIN, draw
  the id, run the transaction, log.
\<close>

definition auth_register_rest ::
  "env \<Rightarrow> req_meta \<Rightarrow> register_body \<Rightarrow> store \<Rightarrow> string response \<times> store" where
  "auth_register_rest env meta body st =
     (let pinHash = bcrypt_hash env (rb_pin body);
          userId = uuidv4 env
      in case transaction (register_callback env userId pinHash body) st of
           (Inl error, st') \<Rightarrow>
             (Err 500 (if error = [] then ''Registration failed'' else error) [],
              logAuthAttempt (rb_egn body) False (m_ipAddress meta) (m_userAgent meta)
                (Some error) st')
         | (Inr _, st') \<Rightarrow>
             (Ok userId,
              logAuthAttempt (rb_egn body) True (m_ipAddress meta) (m_userAgent meta)
                None st'))"

text \<open>A login whose SELECT has run and whose rest has not: the request and the rows read.\<close>

record pending_login =
  p_meta :: req_meta
  p_body :: login_body
  p_rows :: "user list"

text \<open>
  What can happen next at the authentication routes: a login runs its SELECT; the login
  in flight at position \<open>i\<close> runs its rest, with the answers the collaborators give it; a
  registration whose existence check passed earlier runs its rest; or a call runs from
  start to end with nothing in between (logout issues one statement and face enrolment
  writes nothing, so these two only occur whole).
\<close>

datatype auth_event =
    VerifySelect req_meta login_body
  | VerifyRest nat env
  | RegisterRest env req_meta register_body
  | Whole env auth_call

fun auth_event_step ::
  "auth_event \<Rightarrow> store \<times> pending_login list \<Rightarrow> store \<times> pending_login list" where
  "auth_event_step (VerifySelect meta body) (st, ps) =
     (st, ps @ [\<lparr>p_meta = meta, p_body = body,
                 p_rows = filter (\<lambda>u. egn u = lb_egn body) (users st)\<rparr>])"
| "auth_event_step (VerifyRest i env) (st, ps) =
     (if i < length ps
      then (snd (auth_verify_rest env (p_meta (ps ! i)) (p_body (ps ! i)) (p_rows (ps ! i)) st),
            take i ps @ drop (Suc i) ps)
      else (st, ps))"
| "auth_event_step (RegisterRest env meta body) (st, ps) =
     (snd (auth_register_rest env meta body st), ps)"
| "auth_event_step (Whole env c) (st, ps) = (auth_api env c st, ps)"

fun run_auth_events ::
  "auth_event list \<Rightarrow> store \<times> pending_login list \<Rightarrow> store \<times> pending_login list" where
  "run_auth_events [] s = s"
| "run_auth_events (ev # evs) s = run_auth_events evs (auth_event_step ev s)"

text \<open>
  A login in flight does not endanger the lock of the user with id \<open>i\<close>: the row it has
  read is not that user's, or it was read with the counter already at 5 or with the
  account deactivated.
\<close>

definition read_after_lock :: "string \<Rightarrow> pending_login \<Rightarrow> bool" where
  "read_after_lock i p =
     (case p_rows p of
        [] \<Rightarrow> True
      | r # _ \<Rightarrow> u_id r \<noteq> i \<or> 5 \<le> failed_login_attempts r \<or> \<not> is_active r)"

text \<open>
  The kiosk user after four failed attempts, and three events: a login with the right PIN
  runs its SELECT; a login with a wrong PIN runs from start to end; the first login runs
  its rest.
\<close>

definition almost_locked_store :: store where
  "almost_locked_store = kiosk_store\<lparr>users := [kiosk_user\<lparr>failed_login_attempts := 4\<rparr>]\<rparr>"

definition race_until_locked :: "auth_event list" where
  "race_until_locked =
     [VerifySelect kiosk_meta (login_of ''1234'' None),
      Whole (kiosk_env failing_processor) (Verify kiosk_meta (login_of ''0000'' None))]"

definition race_events :: "auth_event list" where
  "race_events = race_until_locked @ [VerifyRest 0 (kiosk_env failing_processor)]"

text \<open>Events around the locked kiosk user: logins that overlap each other and a
  registration.\<close>

definition overlapping_events :: "auth_event list" where
  "overlapping_events =
     [VerifySelect kiosk_meta (login_of ''1234'' None),
      VerifySelect kiosk_meta (login_of ''0000'' (Some ''selfie'')),
      RegisterRest ((kiosk_env failing_processor)\<lparr>uuidv4 := ''u2''\<rparr>) kiosk_meta
        \<lparr>rb_egn = ''8001011236'', rb_full_name = ''Petar Georgiev'', rb_pin = ''4321'',
         rb_account_number = ''BG21STSA93000012345678'', rb_phone_number = None,
         rb_email = None, rb_face_image = None\<rparr>,
      VerifyRest 1 (kiosk_env failing_processor),
      Whole (kiosk_env failing_processor) (Logout (Some ''Bearer tokenA'')),
      VerifyRest 0 (kiosk_env failing_processor)]"

text \<open>
  The lock of the user \<open>usr\<close> with identity number \<open>e\<close> is settled in a state of the
  routes: the ids in the users table are distinct (the primary key), the row found for \<open>e\<close>
  is \<open>usr\<close>, and no login in flight endangers it.
\<close>

definition lock_settled :: "string \<Rightarrow> user \<Rightarrow> store \<times> pending_login list \<Rightarrow> bool" where
  "lock_settled e usr s =
     (distinct (map u_id (users (fst s)))
      \<and> (\<exists>rest. filter (\<lambda>u. egn u = e) (users (fst s)) = usr # rest)
      \<and> list_all (read_after_lock (u_id usr)) (snd s))"

section \<open>Properties of the EGN validator\<close>

lemma egn_sum_loop_unfold:
  "egn_sum_loop x i acc =
     (if i < 9
      then egn_sum_loop x (Suc i)
             (case (acc, parseInt_char (x ! i)) of
                (Some s, Some d) \<Rightarrow> Some (s + d * weights ! i)
              | _ \<Rightarrow> None)
      else acc)"
  by (rule egn_sum_loop.simps)

declare egn_sum_loop.simps [simp del]

lemma egn_sum_loop_digits:
  assumes "length x = 10" "list_all isDigit x"
  shows "egn_sum_loop x 0 (Some 0) =
           Some (sum_list (map2 (\<lambda>c w. digit_value c * w) (take 9 x) weights))"
proof -
  obtain c0 c1 c2 c3 c4 c5 c6 c7 c8 c9 where e: "x = [c0, c1, c2, c3, c4, c5, c6, c7, c8, c9]"
    using assms(1) by (auto simp: length_Suc_conv eval_nat_numeral)
  have d: "isDigit c0" "isDigit c1" "isDigit c2" "isDigit c3" "isDigit c4"
    "isDigit c5" "isDigit c6" "isDigit c7" "isDigit c8"
    using assms(2) by (simp_all add: e)
  show ?thesis
    unfolding e
    by (subst egn_sum_loop_unfold, simp add: parseInt_char_def d weights_def digit_value_def)+
qed

text \<open>
  C9. Every string the validator accepts has ten characters and its tenth digit is the
  recomputed checksum of the first nine; replacing the tenth character by any other
  character gives a string the validator rejects.
\<close>

theorem validateEGN_roundtrip:
  assumes "validateEGN x"
  shows "length x = 10
         \<and> spec_check_digit (take 9 x) = digit_value (x ! 9)
         \<and> (\<forall>c. c \<noteq> x ! 9 \<longrightarrow> \<not> validateEGN (take 9 x @ [c]))"
proof -
  from assms have m: "length x = 10" "list_all isDigit x"
    by (auto simp: validateEGN_def matches_ten_digits_def split: if_splits)
  have s: "egn_sum_loop x 0 (Some 0) =
             Some (sum_list (map2 (\<lambda>c w. digit_value c * w) (take 9 x) weights))"
    by (rule egn_sum_loop_digits [OF m])
  have d9: "isDigit (x ! 9)"
    using m by (simp add: list_all_length)
  from assms have chk: "spec_check_digit (take 9 x) = digit_value (x ! 9)"
    using d9
    by (simp add: validateEGN_def matches_ten_digits_def m s spec_check_digit_def
        parseInt_char_def digit_value_def Let_def split: if_splits)
  have flip: "\<not> validateEGN (take 9 x @ [c])" if c: "c \<noteq> x ! 9" for c
  proof (cases "isDigit c")
    case False
    then show ?thesis
      by (simp add: validateEGN_def matches_ten_digits_def)
  next
    case True
    let ?e = "take 9 x @ [c]"
    have m': "length ?e = 10" "list_all isDigit ?e"
      using m True by (auto simp: list_all_iff dest: in_set_takeD)
    have t: "take 9 ?e = take 9 x"
      using m by simp
    have s': "egn_sum_loop ?e 0 (Some 0) =
             Some (sum_list (map2 (\<lambda>c w. digit_value c * w) (take 9 x) weights))"
      using egn_sum_loop_digits [OF m'] by (simp only: t)
    have l: "?e ! 9 = c"
      using m by (simp add: nth_append)
    have ne: "digit_value c \<noteq> digit_value (x ! 9)"
      using c by (auto simp: digit_value_def)
    show ?thesis
      using ne chk True
      by (simp add: validateEGN_def matches_ten_digits_def m' s' l spec_check_digit_def
          parseInt_char_def digit_value_def Let_def del: of_char_eq_iff)
  qed
  show ?thesis
    using m(1) chk flip by blast
qed

theorem validateEGN_roundtrip_witness:
  "validateEGN ''7523169263''
   \<and> spec_check_digit (take 9 ''7523169263'') = 3
   \<and> \<not> validateEGN ''7523169264''"
proof -
  have v: "validateEGN ''7523169263''"
    by code_simp
  have d: "digit_value (''7523169263'' ! 9) = 3" "CHR ''4'' \<noteq> ''7523169263'' ! 9"
    "take 9 ''7523169263'' @ [CHR ''4''] = ''7523169264''"
    by (simp_all add: digit_value_def)
  from validateEGN_roundtrip [OF v] show ?thesis
    using v d by metis
qed

section \<open>Properties of the retry helper\<close>

lemma retryRequest_loop_unfold:
  "retryRequest_loop requestFn retries i slept =
     (if i < retries then
        (case requestFn i of
           Inr r \<Rightarrow> \<lparr>completion = Returned r, calls = Suc i, delays = slept\<rparr>
         | Inl error \<Rightarrow>
             if i = retries - 1
             then \<lparr>completion = Threw error, calls = Suc i, delays = slept\<rparr>
             else retryRequest_loop requestFn retries (Suc i) (slept @ [RETRY_DELAY * 2 ^ i]))
      else \<lparr>completion = ReturnedUndefined, calls = i, delays = slept\<rparr>)"
  by (rule retryRequest_loop.simps)

declare retryRequest_loop.simps [simp del]

text \<open>
  C6, as the code has it. With the ceiling of 3 attempts, every failed attempt is
  followed by another one, whatever the error was (a timeout, a 5xx or a 4xx answer),
  after a delay of 1000 ms and then 2000 ms, until an attempt succeeds or three have been
  made; the error of the third attempt is the one thrown.
\<close>

theorem retryRequest_retries_every_failure:
  "retryRequest requestFn MAX_RETRIES =
     (case requestFn 0 of
        Inr r \<Rightarrow> \<lparr>completion = Returned r, calls = 1, delays = []\<rparr>
      | Inl e0 \<Rightarrow>
          (case requestFn 1 of
             Inr r \<Rightarrow> \<lparr>completion = Returned r, calls = 2, delays = [1000]\<rparr>
           | Inl e1 \<Rightarrow>
               (case requestFn 2 of
                  Inr r \<Rightarrow> \<lparr>completion = Returned r, calls = 3, delays = [1000, 2000]\<rparr>
                | Inl e2 \<Rightarrow> \<lparr>completion = Threw e2, calls = 3, delays = [1000, 2000]\<rparr>)))"
  unfolding retryRequest_def MAX_RETRIES_def
  apply (subst retryRequest_loop_unfold)
  apply (cases "requestFn 0")
   apply (simp add: RETRY_DELAY_def)
   apply (subst retryRequest_loop_unfold)
   apply (cases "requestFn 1")
    apply (simp add: RETRY_DELAY_def)
    apply (subst retryRequest_loop_unfold)
    apply (cases "requestFn 2")
     apply (simp_all add: RETRY_DELAY_def eval_nat_numeral)
  done

theorem retryRequest_retries_every_failure_witness:
  "retryRequest
     (\<lambda>i. if i = 0 then Inl (ResponseError 503 None)
          else if i = 1 then Inl (NoResponse ''timeout of 30000ms exceeded'')
          else Inr (''accepted'')) MAX_RETRIES
   = \<lparr>completion = Returned ''accepted'', calls = 3, delays = [1000, 2000]\<rparr>"
  using retryRequest_retries_every_failure
    [of "\<lambda>i. if i = 0 then Inl (ResponseError 503 None)
             else if i = 1 then Inl (NoResponse ''timeout of 30000ms exceeded'')
             else Inr (''accepted'')"]
  by simp

text \<open>
  C6 as stated fails: a request that the processor answers with HTTP 400 every time is
  attempted three times, with both delays slept, instead of being surfaced after the first
  answer.
\<close>

theorem retryRequest_4xx_counterexample:
  "calls (retryRequest
            (\<lambda>i. Inl (ResponseError 400 (Some ''Insufficient funds'')) :: axios_error + response_data)
            MAX_RETRIES) = 3
   \<and> delays (retryRequest
            (\<lambda>i. Inl (ResponseError 400 (Some ''Insufficient funds'')) :: axios_error + response_data)
            MAX_RETRIES) = [1000, 2000]"
  by code_simp

section \<open>Properties of the money-movement routes\<close>

text \<open>
  C1 on the code, at the scenario of the specification: balance 1000.00, transfer of
  250.00 to an account number that \<^verbatim>\<open>validateIBAN\<close> accepts, the processor fails. The call
  answers with an error and the balance is 1000.00 again, but the store holds no
  transaction row at all afterwards, so none with status FAILED: the catch block throws the
  error again inside the transaction helper, whose ROLLBACK undoes the INSERT and the
  update to FAILED together with the debit.
\<close>

theorem transfer_failure_record_not_failed:
  "validateIBAN (tb_recipient_account (transfer_of 25000))
   \<and> fst (transfers_send (kiosk_env failing_processor) ''u1'' kiosk_meta (transfer_of 25000) kiosk_store)
     = Err 500 ''Processor unavailable'' []
   \<and> map balance (users (snd (transfers_send (kiosk_env failing_processor) ''u1'' kiosk_meta
                                 (transfer_of 25000) kiosk_store))) = [100000]
   \<and> filter (\<lambda>t. status t = ''FAILED'')
        (transactions (snd (transfers_send (kiosk_env failing_processor) ''u1'' kiosk_meta
                              (transfer_of 25000) kiosk_store))) = []
   \<and> transactions (snd (transfers_send (kiosk_env failing_processor) ''u1'' kiosk_meta
                              (transfer_of 25000) kiosk_store)) = []"
  by code_simp

text \<open>
  C2 on the code: after a bill payment and after a transfer whose processor call failed,
  three requests have gone out to the processor and no transaction row with the id of
  the call is in the store.
\<close>

theorem failed_call_leaves_no_transaction_record:
  "filter (\<lambda>t. t_id t = ''tx1'')
     (transactions (snd (bills_pay (kiosk_env failing_processor) ''u1'' kiosk_meta
                           (bill_of 25000) kiosk_store))) = []
   \<and> length (easypay_requests (snd (bills_pay (kiosk_env failing_processor) ''u1'' kiosk_meta
                                     (bill_of 25000) kiosk_store))) = 3
   \<and> filter (\<lambda>t. t_id t = ''tx1'')
       (transactions (snd (transfers_send (kiosk_env failing_processor) ''u1'' kiosk_meta
                             (transfer_of 25000) kiosk_store))) = []
   \<and> length (easypay_requests (snd (transfers_send (kiosk_env failing_processor) ''u1'' kiosk_meta
                                     (transfer_of 25000) kiosk_store))) = 3"
  by code_simp

text \<open>
  C4. A transfer whose amount exceeds the user's balance is answered with status 400 and
  the error \<^verbatim>\<open>Insufficient balance\<close>; the users table (so every balance), the transactions
  table (so every status) and the requests sent to the processor are what they were.
\<close>

theorem transfer_insufficient_balance_rejected:
  assumes "filter (\<lambda>u. u_id u = userId) (users st) = usr # rest"
    and "balance usr < tb_amount body"
  shows "fst (transfers_send env userId meta body st) = Err 400 ''Insufficient balance'' []
         \<and> users (snd (transfers_send env userId meta body st)) = users st
         \<and> transactions (snd (transfers_send env userId meta body st)) = transactions st
         \<and> easypay_requests (snd (transfers_send env userId meta body st)) = easypay_requests st"
  using assms
  by (simp add: transfers_send_def Let_def logTransaction_def createAuditLog_def)

theorem transfer_insufficient_balance_rejected_witness:
  "fst (transfers_send (kiosk_env accepting_processor) ''u1'' kiosk_meta (transfer_of 200000) kiosk_store)
     = Err 400 ''Insufficient balance'' []
   \<and> map balance (users (snd (transfers_send (kiosk_env accepting_processor) ''u1'' kiosk_meta
                                 (transfer_of 200000) kiosk_store))) = [100000]
   \<and> transactions (snd (transfers_send (kiosk_env accepting_processor) ''u1'' kiosk_meta
                           (transfer_of 200000) kiosk_store)) = []
   \<and> easypay_requests (snd (transfers_send (kiosk_env accepting_processor) ''u1'' kiosk_meta
                           (transfer_of 200000) kiosk_store)) = []"
proof -
  have f: "filter (\<lambda>u. u_id u = ''u1'') (users kiosk_store) = kiosk_user # []"
    by (simp add: kiosk_store_def kiosk_user_def)
  have b: "balance kiosk_user < tb_amount (transfer_of 200000)"
    by (simp add: kiosk_user_def transfer_of_def)
  have u: "map balance (users kiosk_store) = [100000]" "transactions kiosk_store = []"
    "easypay_requests kiosk_store = []"
    by (simp_all add: kiosk_store_def kiosk_user_def)
  from transfer_insufficient_balance_rejected [OF f b, of "kiosk_env accepting_processor" kiosk_meta]
  show ?thesis
    using u by simp
qed

text \<open>
  C5 on the code: the request that a bill payment sends to the processor has no
  \<^verbatim>\<open>reference\<close> key and none of its values is the id of the local transaction row
  (\<^verbatim>\<open>processBillPayment\<close> is not given the id); the request of a transfer carries the id
  under \<^verbatim>\<open>reference\<close>.
\<close>

theorem bill_payment_request_has_no_reference:
  "map (\<lambda>(url, data). (url, map_of data ''reference'', JString ''tx1'' \<in> set (map snd data)))
     (easypay_requests (snd (bills_pay (kiosk_env accepting_processor) ''u1'' kiosk_meta
                               (bill_of 25000) kiosk_store)))
     = [(''/bills/pay'', None, False)]
   \<and> map t_id (transactions (snd (bills_pay (kiosk_env accepting_processor) ''u1'' kiosk_meta
                               (bill_of 25000) kiosk_store))) = [''tx1'']
   \<and> map (\<lambda>(url, data). (url, map_of data ''reference''))
       (easypay_requests (snd (transfers_send (kiosk_env accepting_processor) ''u1'' kiosk_meta
                               (transfer_of 25000) kiosk_store)))
     = [(''/transfers/sepa'', Some (JString ''tx1''))]"
  by code_simp

section \<open>Properties of the authentication routes\<close>

lemma filter_egn_map:
  assumes "\<And>u. egn (f u) = egn u"
  shows "filter (\<lambda>u. egn u = e) (map f xs) = map f (filter (\<lambda>u. egn u = e) xs)"
  by (induction xs) (simp_all add: assms)

lemma users_logAuthAttempt [simp]: "users (logAuthAttempt e ok ip ua msg st) = users st"
  by (simp add: logAuthAttempt_def createAuditLog_def)

lemma users_createSession [simp]: "users (createSession env i token ip ua st) = users st"
  by (simp add: createSession_def Let_def)

lemma users_increment:
  "users (increment_failed_attempts i st) =
     map (\<lambda>u. if u_id u = i then u\<lparr>failed_login_attempts := failed_login_attempts u + 1\<rparr> else u) (users st)"
  by (simp add: increment_failed_attempts_def)

lemma users_reset:
  "users (reset_failed_attempts t i st) =
     map (\<lambda>u. if u_id u = i then u\<lparr>failed_login_attempts := 0, last_login_at := Some t\<rparr> else u) (users st)"
  by (simp add: reset_failed_attempts_def)


text \<open>
  C3, as the code has it. The login answers with a token exactly when a user with the
  identity number exists, the PIN matches, the account is active, the failed-attempt
  counter is below 5, and the face factor does not object: no image (or an empty one) was
  supplied, or the verifier returned verified = true, or the verifier could not be
  reached. In every other case the answer is an error with status 401 or 403.
\<close>

theorem login_token_iff:
  "issues_token (fst (auth_verify env meta body st)) = login_gate env body st
   \<and> (login_gate env body st \<or> is_auth_error (fst (auth_verify env meta body st)))"
  by (auto simp: auth_verify_def login_gate_def face_factor_def issues_token_def
      is_auth_error_def Let_def
      split: list.splits option.splits face_outcome.splits bool.splits if_splits)

theorem login_token_iff_witness:
  "login_gate (kiosk_env failing_processor) (login_of ''1234'' (Some ''selfie'')) kiosk_store
   \<and> issues_token (fst (auth_verify (kiosk_env failing_processor) kiosk_meta
                          (login_of ''1234'' (Some ''selfie'')) kiosk_store))"
proof -
  have g: "login_gate (kiosk_env failing_processor) (login_of ''1234'' (Some ''selfie'')) kiosk_store"
    by code_simp
  from login_token_iff [of "kiosk_env failing_processor" kiosk_meta
      "login_of ''1234'' (Some ''selfie'')" kiosk_store]
  show ?thesis using g by simp
qed


text \<open>
  C3 as stated fails: with a face image supplied and the face service unreachable the
  verifier has not returned verified = true, and the login still answers with a token.
\<close>

theorem login_face_service_down_counterexample:
  "issues_token (fst (auth_verify (kiosk_env failing_processor) kiosk_meta
                        (login_of ''1234'' (Some ''selfie'')) kiosk_store))
   \<and> \<not> spec_login_gate (kiosk_env failing_processor) (login_of ''1234'' (Some ''selfie'')) kiosk_store"
  by code_simp

lemma wrong_pin_step:
  assumes f: "filter (\<lambda>u. egn u = e) (users st) = usr # rest"
    and a: "is_active usr" and k: "k \<le> failed_login_attempts usr"
    and e: "lb_egn body = e" and w: "\<not> bcrypt_compare env (lb_pin body) (pin_hash usr)"
  shows "\<exists>usr' rest'. filter (\<lambda>u. egn u = e) (users (snd (auth_verify env meta body st))) = usr' # rest'
           \<and> is_active usr' \<and> pin_hash usr' = pin_hash usr
           \<and> min 5 (k + 1) \<le> failed_login_attempts usr'"
proof (cases "failed_login_attempts usr \<ge> 5")
  case True
  then have "users (snd (auth_verify env meta body st)) = users st"
    using f a e by (simp add: auth_verify_def Let_def)
  then show ?thesis using f a True by auto
next
  case False
  let ?f = "\<lambda>u. if u_id u = u_id usr then u\<lparr>failed_login_attempts := failed_login_attempts u + 1\<rparr> else u"
  have "users (snd (auth_verify env meta body st)) = map ?f (users st)"
    using f a e w False by (simp add: auth_verify_def Let_def users_increment)
  then have "filter (\<lambda>u. egn u = e) (users (snd (auth_verify env meta body st)))
               = ?f usr # map ?f rest"
    using f by (simp add: filter_egn_map)
  then show ?thesis using a k by auto
qed

lemma wrong_pins_accumulate:
  assumes "list_all (is_failed_pin_attempt e h) attempts"
    and "filter (\<lambda>u. egn u = e) (users st) = usr # rest"
    and "is_active usr" and "pin_hash usr = h" and "k \<le> failed_login_attempts usr"
  shows "\<exists>usr' rest'. filter (\<lambda>u. egn u = e) (users (run_auth_api attempts st)) = usr' # rest'
           \<and> is_active usr' \<and> pin_hash usr' = h
           \<and> min 5 (k + int (length attempts)) \<le> failed_login_attempts usr'"
  using assms
proof (induction attempts arbitrary: st usr rest k)
  case Nil
  then show ?case by auto
next
  case (Cons a attempts)
  obtain env' c where ac: "a = (env', c)" by (cases a)
  from Cons.prems(1) obtain meta body where
    c: "c = Verify meta body" and e: "lb_egn body = e"
    and w: "\<not> bcrypt_compare env' (lb_pin body) h"
    by (auto simp: is_failed_pin_attempt_def ac split: auth_call.splits)
  from wrong_pin_step [OF Cons.prems(2) Cons.prems(3) Cons.prems(5) e, of env' meta]
    w Cons.prems(4)
  obtain usr' rest' where
    s: "filter (\<lambda>u. egn u = e) (users (snd (auth_verify env' meta body st))) = usr' # rest'"
    "is_active usr'" "pin_hash usr' = h" "min 5 (k + 1) \<le> failed_login_attempts usr'"
    by auto
  have l: "list_all (is_failed_pin_attempt e h) attempts"
    using Cons.prems(1) by simp
  from Cons.IH [OF l s(1) s(2) s(3) s(4)]
  obtain usr'' rest'' where
    r: "filter (\<lambda>u. egn u = e) (users (run_auth_api attempts (snd (auth_verify env' meta body st)))) = usr'' # rest''"
    "is_active usr''" "pin_hash usr'' = h"
    "min 5 (min 5 (k + 1) + int (length attempts)) \<le> failed_login_attempts usr''"
    by auto
  have "min 5 (k + int (length (a # attempts))) \<le> min 5 (min 5 (k + 1) + int (length attempts))"
    by auto
  then show ?case
    using r by (auto simp: ac c)
qed


text \<open>
  C7. Take a user who is active and whose counter is not negative. After five login
  attempts for that user with a PIN that does not match, a further attempt with the
  matching PIN is answered with the account-locked error (status 403).
\<close>

theorem sixth_attempt_locked:
  assumes "filter (\<lambda>u. egn u = e) (users st) = usr # rest"
    and "is_active usr"
    and "0 \<le> failed_login_attempts usr"
    and "length attempts = 5"
    and "list_all (is_failed_pin_attempt e (pin_hash usr)) attempts"
    and "lb_egn body = e"
    and "bcrypt_compare env (lb_pin body) (pin_hash usr)"
  shows "fst (auth_verify env meta body (run_auth_api attempts st)) = account_locked"
proof -
  from wrong_pins_accumulate [OF assms(5) assms(1) assms(2) refl assms(3)] assms(4)
  obtain usr' rest' where
    r: "filter (\<lambda>u. egn u = e) (users (run_auth_api attempts st)) = usr' # rest'"
    "is_active usr'" "5 \<le> failed_login_attempts usr'"
    by auto
  then show ?thesis
    using assms(6) by (simp add: auth_verify_def Let_def account_locked_def)
qed

theorem sixth_attempt_locked_witness:
  "bcrypt_compare (kiosk_env failing_processor) ''1234'' (pin_hash kiosk_user)
   \<and> fst (auth_verify (kiosk_env failing_processor) kiosk_meta (login_of ''1234'' None)
        (run_auth_api
           (replicate 5 (kiosk_env failing_processor, Verify kiosk_meta (login_of ''0000'' None)))
           kiosk_store)) = account_locked"
proof -
  have f: "filter (\<lambda>u. egn u = ''7523169263'') (users kiosk_store) = kiosk_user # []"
    by (simp add: kiosk_store_def kiosk_user_def)
  have a: "is_active kiosk_user" "0 \<le> failed_login_attempts kiosk_user"
    by (simp_all add: kiosk_user_def)
  have l: "length (replicate 5 (kiosk_env failing_processor, Verify kiosk_meta (login_of ''0000'' None))) = 5"
    by simp
  have w: "list_all (is_failed_pin_attempt ''7523169263'' (pin_hash kiosk_user))
             (replicate 5 (kiosk_env failing_processor, Verify kiosk_meta (login_of ''0000'' None)))"
    by (simp add: list_all_iff is_failed_pin_attempt_def login_of_def kiosk_env_def kiosk_user_def)
  have e: "lb_egn (login_of ''1234'' None) = ''7523169263''"
    by (simp add: login_of_def)
  have p: "bcrypt_compare (kiosk_env failing_processor) (lb_pin (login_of ''1234'' None)) (pin_hash kiosk_user)"
    by (simp add: login_of_def kiosk_env_def kiosk_user_def)
  from sixth_attempt_locked [OF f a l w e p, of kiosk_meta]
  show ?thesis using p by (simp add: login_of_def)
qed

text \<open>What a login can do to the users table.\<close>

lemma auth_verify_users:
  "users (snd (auth_verify env meta body st)) = users st
   \<or> (\<exists>usr' rest'. filter (\<lambda>u. egn u = lb_egn body) (users st) = usr' # rest'
         \<and> failed_login_attempts usr' < 5
         \<and> (users (snd (auth_verify env meta body st))
               = map (\<lambda>u. if u_id u = u_id usr'
                           then u\<lparr>failed_login_attempts := failed_login_attempts u + 1\<rparr>
                           else u) (users st)
            \<or> users (snd (auth_verify env meta body st))
               = map (\<lambda>u. if u_id u = u_id usr'
                           then u\<lparr>failed_login_attempts := 0, last_login_at := Some (now env)\<rparr>
                           else u) (users st)))"
proof (cases "filter (\<lambda>u. egn u = lb_egn body) (users st)")
  case Nil
  then show ?thesis by (simp add: auth_verify_def Let_def)
next
  case (Cons usr' rest')
  show ?thesis
  proof (cases "\<not> is_active usr' \<or> failed_login_attempts usr' \<ge> 5")
    case True
    then have "users (snd (auth_verify env meta body st)) = users st"
      using Cons by (auto simp: auth_verify_def Let_def)
    then show ?thesis ..
  next
    case False
    then have A: "is_active usr'" "\<not> 5 \<le> failed_login_attempts usr'" by simp_all
    have "users (snd (auth_verify env meta body st))
            = map (\<lambda>u. if u_id u = u_id usr'
                        then u\<lparr>failed_login_attempts := failed_login_attempts u + 1\<rparr>
                        else u) (users st)
          \<or> users (snd (auth_verify env meta body st))
            = map (\<lambda>u. if u_id u = u_id usr'
                        then u\<lparr>failed_login_attempts := 0, last_login_at := Some (now env)\<rparr>
                        else u) (users st)"
    proof (cases "bcrypt_compare env (lb_pin body) (pin_hash usr')")
      case False
      then show ?thesis
        using Cons A by (simp add: auth_verify_def Let_def users_increment)
    next
      case True
      show ?thesis
      proof (cases "face_factor env usr' body")
        case None
        then show ?thesis
          using Cons A True by (simp add: auth_verify_def Let_def users_reset)
      next
        case (Some outcome)
        show ?thesis
        proof (cases outcome)
          case (FaceResult verified confidence)
          then show ?thesis
            using Cons A True Some
            by (cases verified) (simp_all add: auth_verify_def Let_def users_reset users_increment)
        next
          case FaceServiceError
          then show ?thesis
            using Cons A True Some by (simp add: auth_verify_def Let_def users_reset)
        qed
      qed
    qed
    moreover have "failed_login_attempts usr' < 5" using False by simp
    ultimately show ?thesis using Cons by blast
  qed
qed

text \<open>What a registration can do to the users table.\<close>

lemma auth_register_users:
  "users (snd (auth_register env meta body st)) = users st
   \<or> (\<exists>new. u_id new \<notin> set (map u_id (users st))
         \<and> users (snd (auth_register env meta body st)) = users st @ [new])"
  by (auto simp: auth_register_def register_callback_def insert_user_def transaction_def
      rollback_def Let_def split: list.splits option.splits if_splits)

lemma auth_logout_users: "users (snd (auth_logout env h st)) = users st"
  by (simp add: auth_logout_def logout_def split: option.splits jwt_outcome.splits)

lemma auth_enroll_face_users: "users (snd (auth_enroll_face env body st)) = users st"
  by (simp add: auth_enroll_face_def split: option.splits list.splits prod.splits)

lemma first_row_in_table:
  assumes "filter P xs = x # rest"
  shows "x \<in> set xs"
proof -
  have "x \<in> set (filter P xs)" using assms by simp
  then show ?thesis by simp
qed

text \<open>An update of another user's row, by id, leaves the locked row alone.\<close>

lemma update_by_id_keeps_locked_row:
  assumes d: "distinct (map u_id (users st))"
    and f: "filter (\<lambda>u. egn u = e) (users st) = usr # rest"
    and l: "5 \<le> failed_login_attempts usr"
    and f': "filter (\<lambda>u. egn u = e') (users st) = usr' # rest'"
    and c': "failed_login_attempts usr' < 5"
    and g: "\<And>u. egn (g u) = egn u" "\<And>u. u_id (g u) = u_id u"
  shows "distinct (map u_id (map (\<lambda>u. if u_id u = u_id usr' then g u else u) (users st)))
         \<and> filter (\<lambda>u. egn u = e) (map (\<lambda>u. if u_id u = u_id usr' then g u else u) (users st))
             = usr # map (\<lambda>u. if u_id u = u_id usr' then g u else u) rest"
proof -
  let ?g = "\<lambda>u. if u_id u = u_id usr' then g u else u"
  have m1: "usr \<in> set (users st)" by (rule first_row_in_table [OF f])
  have m2: "usr' \<in> set (users st)" by (rule first_row_in_table [OF f'])
  have ne: "usr \<noteq> usr'" using c' l by auto
  have inj: "inj_on u_id (set (users st))"
    using d by (simp add: distinct_map)
  have idne: "u_id usr \<noteq> u_id usr'"
    using inj m1 m2 ne by (auto dest: inj_onD)
  have ge: "\<And>u. egn (?g u) = egn u" using g by simp
  have gi: "u_id \<circ> ?g = u_id" using g by auto
  have "filter (\<lambda>u. egn u = e) (map ?g (users st)) = map ?g (usr # rest)"
    using filter_egn_map [of ?g e "users st", OF ge] f by simp
  then have k: "filter (\<lambda>u. egn u = e) (map ?g (users st)) = usr # map ?g rest"
    using idne by simp
  have dd: "distinct (map u_id (map ?g (users st)))"
    using d by (simp add: gi)
  show ?thesis using k dd by simp
qed

lemma locked_row_kept:
  assumes d: "distinct (map u_id (users st))"
    and f: "filter (\<lambda>u. egn u = e) (users st) = usr # rest"
    and l: "5 \<le> failed_login_attempts usr"
  shows "distinct (map u_id (users (auth_api env c st)))
         \<and> (\<exists>rest'. filter (\<lambda>u. egn u = e) (users (auth_api env c st)) = usr # rest')"
proof (cases c)
  case (Register meta body)
  then have a: "auth_api env c st = snd (auth_register env meta body st)" by simp
  from auth_register_users [of env meta body st] show ?thesis
  proof
    assume "users (snd (auth_register env meta body st)) = users st"
    then show ?thesis unfolding a using d f by simp
  next
    assume "\<exists>new. u_id new \<notin> set (map u_id (users st))
         \<and> users (snd (auth_register env meta body st)) = users st @ [new]"
    then obtain new where n: "u_id new \<notin> set (map u_id (users st))"
      and u: "users (snd (auth_register env meta body st)) = users st @ [new]" by blast
    have dd: "distinct (map u_id (users st @ [new]))"
      using d n by simp
    have k: "filter (\<lambda>u. egn u = e) (users st @ [new])
               = usr # (rest @ filter (\<lambda>u. egn u = e) [new])"
      using f by simp
    show ?thesis unfolding a u using dd k by blast
  qed
next
  case (Verify meta body)
  then have a: "auth_api env c st = snd (auth_verify env meta body st)" by simp
  from auth_verify_users [of env meta body st] show ?thesis
  proof
    assume "users (snd (auth_verify env meta body st)) = users st"
    then show ?thesis unfolding a using d f by simp
  next
    assume "\<exists>usr' rest'. filter (\<lambda>u. egn u = lb_egn body) (users st) = usr' # rest'
         \<and> failed_login_attempts usr' < 5
         \<and> (users (snd (auth_verify env meta body st))
               = map (\<lambda>u. if u_id u = u_id usr'
                           then u\<lparr>failed_login_attempts := failed_login_attempts u + 1\<rparr>
                           else u) (users st)
            \<or> users (snd (auth_verify env meta body st))
               = map (\<lambda>u. if u_id u = u_id usr'
                           then u\<lparr>failed_login_attempts := 0, last_login_at := Some (now env)\<rparr>
                           else u) (users st))"
    then obtain usr' rest' where
      f': "filter (\<lambda>u. egn u = lb_egn body) (users st) = usr' # rest'"
      and c': "failed_login_attempts usr' < 5"
      and u: "users (snd (auth_verify env meta body st))
               = map (\<lambda>u. if u_id u = u_id usr'
                           then u\<lparr>failed_login_attempts := failed_login_attempts u + 1\<rparr>
                           else u) (users st)
            \<or> users (snd (auth_verify env meta body st))
               = map (\<lambda>u. if u_id u = u_id usr'
                           then u\<lparr>failed_login_attempts := 0, last_login_at := Some (now env)\<rparr>
                           else u) (users st)"
      by blast
    from u show ?thesis
    proof
      assume h: "users (snd (auth_verify env meta body st))
               = map (\<lambda>u. if u_id u = u_id usr'
                           then u\<lparr>failed_login_attempts := failed_login_attempts u + 1\<rparr>
                           else u) (users st)"
      have "distinct (map u_id (map (\<lambda>u. if u_id u = u_id usr'
                           then u\<lparr>failed_login_attempts := failed_login_attempts u + 1\<rparr>
                           else u) (users st)))
         \<and> filter (\<lambda>u. egn u = e) (map (\<lambda>u. if u_id u = u_id usr'
                           then u\<lparr>failed_login_attempts := failed_login_attempts u + 1\<rparr>
                           else u) (users st))
             = usr # map (\<lambda>u. if u_id u = u_id usr'
                           then u\<lparr>failed_login_attempts := failed_login_attempts u + 1\<rparr>
                           else u) rest"
        by (rule update_by_id_keeps_locked_row [OF d f l f' c']) simp_all
      then show ?thesis unfolding a h by blast
    next
      assume h: "users (snd (auth_verify env meta body st))
               = map (\<lambda>u. if u_id u = u_id usr'
                           then u\<lparr>failed_login_attempts := 0, last_login_at := Some (now env)\<rparr>
                           else u) (users st)"
      have "distinct (map u_id (map (\<lambda>u. if u_id u = u_id usr'
                           then u\<lparr>failed_login_attempts := 0, last_login_at := Some (now env)\<rparr>
                           else u) (users st)))
         \<and> filter (\<lambda>u. egn u = e) (map (\<lambda>u. if u_id u = u_id usr'
                           then u\<lparr>failed_login_attempts := 0, last_login_at := Some (now env)\<rparr>
                           else u) (users st))
             = usr # map (\<lambda>u. if u_id u = u_id usr'
                           then u\<lparr>failed_login_attempts := 0, last_login_at := Some (now env)\<rparr>
                           else u) rest"
        by (rule update_by_id_keeps_locked_row [OF d f l f' c']) simp_all
      then show ?thesis unfolding a h by blast
    qed
  qed
next
  case (Logout h)
  then show ?thesis using d f by (simp add: auth_logout_users)
next
  case (EnrollFace body)
  then show ?thesis using d f by (simp add: auth_enroll_face_users)
qed

subsection \<open>The lock under overlapping requests\<close>

text \<open>Each handler is its first read followed by its rest.\<close>

lemma auth_verify_split:
  "auth_verify env meta body st =
     auth_verify_rest env meta body (filter (\<lambda>u. egn u = lb_egn body) (users st)) st"
  by (simp add: auth_verify_def auth_verify_rest_def)

lemma auth_register_split:
  "auth_register env meta body st =
     (case filter (\<lambda>u. egn u = rb_egn body \<or> account_number u = rb_account_number body)
             (users st) of
        _ # _ \<Rightarrow>
          (Err 400 (''User with this E'' @ [CHR 0xD0, CHR 0x93, CHR 0xD0, CHR 0x9D]
                      @ '' or account number already exists'') [], st)
      | [] \<Rightarrow> auth_register_rest env meta body st)"
  by (simp add: auth_register_def auth_register_rest_def split: list.splits)

text \<open>What the rest of a login can do to the users table.\<close>

lemma auth_verify_rest_users:
  "users (snd (auth_verify_rest env meta body rows st)) = users st
   \<or> (\<exists>r rs. rows = r # rs \<and> is_active r \<and> failed_login_attempts r < 5
         \<and> (users (snd (auth_verify_rest env meta body rows st))
               = map (\<lambda>u. if u_id u = u_id r
                           then u\<lparr>failed_login_attempts := failed_login_attempts u + 1\<rparr>
                           else u) (users st)
            \<or> users (snd (auth_verify_rest env meta body rows st))
               = map (\<lambda>u. if u_id u = u_id r
                           then u\<lparr>failed_login_attempts := 0, last_login_at := Some (now env)\<rparr>
                           else u) (users st)))"
proof (cases rows)
  case Nil
  then show ?thesis by (simp add: auth_verify_rest_def Let_def)
next
  case (Cons r rs)
  show ?thesis
  proof (cases "\<not> is_active r \<or> failed_login_attempts r \<ge> 5")
    case True
    then have "users (snd (auth_verify_rest env meta body rows st)) = users st"
      using Cons by (auto simp: auth_verify_rest_def Let_def)
    then show ?thesis ..
  next
    case False
    then have A: "is_active r" "\<not> 5 \<le> failed_login_attempts r" by simp_all
    have "users (snd (auth_verify_rest env meta body rows st))
            = map (\<lambda>u. if u_id u = u_id r
                        then u\<lparr>failed_login_attempts := failed_login_attempts u + 1\<rparr>
                        else u) (users st)
          \<or> users (snd (auth_verify_rest env meta body rows st))
            = map (\<lambda>u. if u_id u = u_id r
                        then u\<lparr>failed_login_attempts := 0, last_login_at := Some (now env)\<rparr>
                        else u) (users st)"
    proof (cases "bcrypt_compare env (lb_pin body) (pin_hash r)")
      case False
      then show ?thesis
        using Cons A by (simp add: auth_verify_rest_def Let_def users_increment)
    next
      case True
      show ?thesis
      proof (cases "face_factor env r body")
        case None
        then show ?thesis
          using Cons A True by (simp add: auth_verify_rest_def Let_def users_reset)
      next
        case (Some outcome)
        show ?thesis
        proof (cases outcome)
          case (FaceResult verified confidence)
          then show ?thesis
            using Cons A True Some
            by (cases verified)
              (simp_all add: auth_verify_rest_def Let_def users_reset users_increment)
        next
          case FaceServiceError
          then show ?thesis
            using Cons A True Some by (simp add: auth_verify_rest_def Let_def users_reset)
        qed
      qed
    qed
    moreover have "failed_login_attempts r < 5" using False by simp
    ultimately show ?thesis using Cons A by blast
  qed
qed

lemma auth_register_rest_users:
  "users (snd (auth_register_rest env meta body st)) = users st
   \<or> (\<exists>new. u_id new \<notin> set (map u_id (users st))
         \<and> users (snd (auth_register_rest env meta body st)) = users st @ [new])"
  by (auto simp: auth_register_rest_def register_callback_def insert_user_def transaction_def
      rollback_def Let_def split: list.splits option.splits if_splits)

text \<open>An update of the row with another id leaves the locked row alone.\<close>

lemma update_other_id_keeps_locked_row:
  assumes d: "distinct (map u_id (users st))"
    and f: "filter (\<lambda>u. egn u = e) (users st) = usr # rest"
    and idne: "u_id usr \<noteq> i"
    and g: "\<And>u. egn (g u) = egn u" "\<And>u. u_id (g u) = u_id u"
  shows "distinct (map u_id (map (\<lambda>u. if u_id u = i then g u else u) (users st)))
         \<and> filter (\<lambda>u. egn u = e) (map (\<lambda>u. if u_id u = i then g u else u) (users st))
             = usr # map (\<lambda>u. if u_id u = i then g u else u) rest"
proof -
  let ?g = "\<lambda>u. if u_id u = i then g u else u"
  have ge: "\<And>u. egn (?g u) = egn u" using g by simp
  have gi: "u_id \<circ> ?g = u_id" using g by auto
  have "filter (\<lambda>u. egn u = e) (map ?g (users st)) = map ?g (usr # rest)"
    using filter_egn_map [of ?g e "users st", OF ge] f by simp
  then have k: "filter (\<lambda>u. egn u = e) (map ?g (users st)) = usr # map ?g rest"
    using idne by simp
  have dd: "distinct (map u_id (map ?g (users st)))"
    using d by (simp add: gi)
  show ?thesis using k dd by simp
qed

text \<open>Every event keeps a settled lock settled.\<close>

lemma lock_settled_step:
  assumes inv: "lock_settled e usr s"
    and l: "5 \<le> failed_login_attempts usr"
  shows "lock_settled e usr (auth_event_step ev s)"
proof -
  obtain st ps where s: "s = (st, ps)" by (cases s)
  from inv obtain rest where d: "distinct (map u_id (users st))"
    and f: "filter (\<lambda>u. egn u = e) (users st) = usr # rest"
    and p: "list_all (read_after_lock (u_id usr)) ps"
    by (auto simp: lock_settled_def s)
  show ?thesis
  proof (cases ev)
    case (VerifySelect meta body)
    have "read_after_lock (u_id usr)
            \<lparr>p_meta = meta, p_body = body,
             p_rows = filter (\<lambda>u. egn u = lb_egn body) (users st)\<rparr>"
    proof (cases "filter (\<lambda>u. egn u = lb_egn body) (users st)")
      case Nil
      then show ?thesis by (simp add: read_after_lock_def)
    next
      case (Cons r rs)
      have m1: "usr \<in> set (users st)" by (rule first_row_in_table [OF f])
      have m2: "r \<in> set (users st)" by (rule first_row_in_table [OF Cons])
      have inj: "inj_on u_id (set (users st))"
        using d by (simp add: distinct_map)
      have "u_id r = u_id usr \<Longrightarrow> r = usr"
        using inj m1 m2 by (auto dest: inj_onD)
      then show ?thesis using Cons l by (auto simp: read_after_lock_def)
    qed
    then show ?thesis
      using d f p by (simp add: lock_settled_def s VerifySelect)
  next
    case (VerifyRest i env)
    show ?thesis
    proof (cases "i < length ps")
      case False
      then show ?thesis using inv by (simp add: s VerifyRest)
    next
      case True
      let ?p = "ps ! i"
      have pi: "read_after_lock (u_id usr) ?p"
        using p True by (simp add: list_all_length)
      have ps': "list_all (read_after_lock (u_id usr)) (take i ps @ drop (Suc i) ps)"
        using p by (auto simp: list_all_iff dest: in_set_takeD in_set_dropD)
      have step: "auth_event_step ev s =
          (snd (auth_verify_rest env (p_meta ?p) (p_body ?p) (p_rows ?p) st),
           take i ps @ drop (Suc i) ps)"
        using True by (simp add: s VerifyRest)
      let ?st' = "snd (auth_verify_rest env (p_meta ?p) (p_body ?p) (p_rows ?p) st)"
      have "distinct (map u_id (users ?st'))
            \<and> (\<exists>rest'. filter (\<lambda>u. egn u = e) (users ?st') = usr # rest')"
        using auth_verify_rest_users [of env "p_meta ?p" "p_body ?p" "p_rows ?p" st]
      proof
        assume "users ?st' = users st"
        then show ?thesis using d f by simp
      next
        assume "\<exists>r rs. p_rows ?p = r # rs \<and> is_active r \<and> failed_login_attempts r < 5
         \<and> (users ?st'
               = map (\<lambda>u. if u_id u = u_id r
                           then u\<lparr>failed_login_attempts := failed_login_attempts u + 1\<rparr>
                           else u) (users st)
            \<or> users ?st'
               = map (\<lambda>u. if u_id u = u_id r
                           then u\<lparr>failed_login_attempts := 0, last_login_at := Some (now env)\<rparr>
                           else u) (users st))"
        then obtain r rs where rows: "p_rows ?p = r # rs"
          and a: "is_active r" and c: "failed_login_attempts r < 5"
          and u: "users ?st'
               = map (\<lambda>u. if u_id u = u_id r
                           then u\<lparr>failed_login_attempts := failed_login_attempts u + 1\<rparr>
                           else u) (users st)
            \<or> users ?st'
               = map (\<lambda>u. if u_id u = u_id r
                           then u\<lparr>failed_login_attempts := 0, last_login_at := Some (now env)\<rparr>
                           else u) (users st)"
          by blast
        have idne: "u_id usr \<noteq> u_id r"
          using pi rows a c by (auto simp: read_after_lock_def)
        from u show ?thesis
        proof
          assume h: "users ?st'
               = map (\<lambda>u. if u_id u = u_id r
                           then u\<lparr>failed_login_attempts := failed_login_attempts u + 1\<rparr>
                           else u) (users st)"
          have "distinct (map u_id (map (\<lambda>u. if u_id u = u_id r
                           then u\<lparr>failed_login_attempts := failed_login_attempts u + 1\<rparr>
                           else u) (users st)))
             \<and> filter (\<lambda>u. egn u = e) (map (\<lambda>u. if u_id u = u_id r
                           then u\<lparr>failed_login_attempts := failed_login_attempts u + 1\<rparr>
                           else u) (users st))
                 = usr # map (\<lambda>u. if u_id u = u_id r
                           then u\<lparr>failed_login_attempts := failed_login_attempts u + 1\<rparr>
                           else u) rest"
            by (rule update_other_id_keeps_locked_row [OF d f idne]) simp_all
          then show ?thesis unfolding h by blast
        next
          assume h: "users ?st'
               = map (\<lambda>u. if u_id u = u_id r
                           then u\<lparr>failed_login_attempts := 0, last_login_at := Some (now env)\<rparr>
                           else u) (users st)"
          have "distinct (map u_id (map (\<lambda>u. if u_id u = u_id r
                           then u\<lparr>failed_login_attempts := 0, last_login_at := Some (now env)\<rparr>
                           else u) (users st)))
             \<and> filter (\<lambda>u. egn u = e) (map (\<lambda>u. if u_id u = u_id r
                           then u\<lparr>failed_login_attempts := 0, last_login_at := Some (now env)\<rparr>
                           else u) (users st))
                 = usr # map (\<lambda>u. if u_id u = u_id r
                           then u\<lparr>failed_login_attempts := 0, last_login_at := Some (now env)\<rparr>
                           else u) rest"
            by (rule update_other_id_keeps_locked_row [OF d f idne]) simp_all
          then show ?thesis unfolding h by blast
        qed
      qed
      then show ?thesis
        unfolding step using ps' by (simp add: lock_settled_def)
    qed
  next
    case (RegisterRest env meta body)
    let ?st' = "snd (auth_register_rest env meta body st)"
    have "distinct (map u_id (users ?st'))
          \<and> (\<exists>rest'. filter (\<lambda>u. egn u = e) (users ?st') = usr # rest')"
      using auth_register_rest_users [of env meta body st]
    proof
      assume "users ?st' = users st"
      then show ?thesis using d f by simp
    next
      assume "\<exists>new. u_id new \<notin> set (map u_id (users st)) \<and> users ?st' = users st @ [new]"
      then obtain new where n: "u_id new \<notin> set (map u_id (users st))"
        and u: "users ?st' = users st @ [new]" by blast
      have dd: "distinct (map u_id (users st @ [new]))"
        using d n by simp
      have k: "filter (\<lambda>u. egn u = e) (users st @ [new])
                 = usr # (rest @ filter (\<lambda>u. egn u = e) [new])"
        using f by simp
      show ?thesis unfolding u using dd k by blast
    qed
    then show ?thesis
      using p by (simp add: lock_settled_def s RegisterRest)
  next
    case (Whole env c)
    from locked_row_kept [OF d f l, of env c]
    show ?thesis
      using p by (simp add: lock_settled_def s Whole)
  qed
qed

lemma lock_settled_run:
  assumes "lock_settled e usr s" and "5 \<le> failed_login_attempts usr"
  shows "lock_settled e usr (run_auth_events evs s)"
  using assms
proof (induction evs arbitrary: s)
  case Nil
  then show ?case by simp
next
  case (Cons ev evs)
  from lock_settled_step [OF Cons.prems(1) Cons.prems(2), of ev]
  have "lock_settled e usr (auth_event_step ev s)" .
  from Cons.IH [OF this Cons.prems(2)] show ?case by simp
qed

text \<open>
  C10, as the code has it. Take an active user whose failed-attempt counter is at least 5,
  in a users table whose ids are distinct, at a moment when no login in flight has read
  that user's row with the counter still below 5. Then, however the requests that follow
  overlap (logins split at their SELECT, registrations, logouts, face enrolments), the
  user's row stays the one found for the identity number and is unchanged, so the counter
  does not go down; a login for that user that reads the row afterwards is answered with
  the account-locked error, whatever PIN and face image it carries and whatever the table
  is when its rest runs; and no login in flight endangers the lock.
\<close>

theorem lock_survives_overlapping_requests:
  assumes "distinct (map u_id (users st))"
    and "filter (\<lambda>u. egn u = e) (users st) = usr # rest"
    and "is_active usr"
    and "5 \<le> failed_login_attempts usr"
    and "list_all (read_after_lock (u_id usr)) ps"
    and "lb_egn body = e"
  shows "fst (auth_verify_rest env meta body
                (filter (\<lambda>u. egn u = lb_egn body) (users (fst (run_auth_events evs (st, ps)))))
                st_later) = account_locked
         \<and> fst (auth_verify env meta body (fst (run_auth_events evs (st, ps)))) = account_locked
         \<and> (\<exists>rest'. filter (\<lambda>u. egn u = e) (users (fst (run_auth_events evs (st, ps))))
                       = usr # rest')
         \<and> list_all (read_after_lock (u_id usr)) (snd (run_auth_events evs (st, ps)))"
proof -
  have "lock_settled e usr (st, ps)"
    using assms(1) assms(2) assms(5) by (simp add: lock_settled_def)
  from lock_settled_run [OF this assms(4), of evs]
  obtain rest' where
    r: "filter (\<lambda>u. egn u = e) (users (fst (run_auth_events evs (st, ps)))) = usr # rest'"
    and p: "list_all (read_after_lock (u_id usr)) (snd (run_auth_events evs (st, ps)))"
    by (auto simp: lock_settled_def)
  have a: "fst (auth_verify_rest env meta body
                (filter (\<lambda>u. egn u = lb_egn body) (users (fst (run_auth_events evs (st, ps)))))
                st_later) = account_locked"
    using r assms(3) assms(4) assms(6)
    by (simp add: auth_verify_rest_def Let_def account_locked_def)
  have b: "fst (auth_verify env meta body (fst (run_auth_events evs (st, ps)))) = account_locked"
    using r assms(3) assms(4) assms(6)
    by (simp add: auth_verify_def Let_def account_locked_def)
  show ?thesis using a b r p by blast
qed

theorem lock_survives_overlapping_requests_witness:
  "fst (auth_verify (kiosk_env failing_processor) kiosk_meta (login_of ''1234'' None)
         (fst (run_auth_events overlapping_events (locked_store, [])))) = account_locked
   \<and> hd (filter (\<lambda>u. egn u = ''7523169263'')
           (users (fst (run_auth_events overlapping_events (locked_store, []))))) = locked_user"
proof -
  have d: "distinct (map u_id (users locked_store))"
    by (simp add: locked_store_def)
  have f: "filter (\<lambda>u. egn u = ''7523169263'') (users locked_store) = locked_user # []"
    by (simp add: locked_store_def locked_user_def kiosk_user_def)
  have a: "is_active locked_user" "5 \<le> failed_login_attempts locked_user"
    by (simp_all add: locked_user_def kiosk_user_def)
  have p: "list_all (read_after_lock (u_id locked_user)) []"
    by simp
  have e: "lb_egn (login_of ''1234'' None) = ''7523169263''"
    by (simp add: login_of_def)
  from lock_survives_overlapping_requests [OF d f a p e,
      of "kiosk_env failing_processor" kiosk_meta overlapping_events locked_store]
  show ?thesis by auto
qed

text \<open>
  C10 as stated fails. With the counter at 4, a login with the right PIN runs its SELECT;
  a login with a wrong PIN then raises the counter to 5, and a login is answered with the
  account-locked error; the first login then runs its rest on the row it had read, resets
  the counter to 0, and the next login is answered with a token.
\<close>

theorem lock_reset_by_overlapping_login_counterexample:
  "map failed_login_attempts
     (users (fst (run_auth_events race_until_locked (almost_locked_store, [])))) = [5]
   \<and> fst (auth_verify (kiosk_env failing_processor) kiosk_meta (login_of ''1234'' None)
          (fst (run_auth_events race_until_locked (almost_locked_store, [])))) = account_locked
   \<and> map failed_login_attempts
       (users (fst (run_auth_events race_events (almost_locked_store, [])))) = [0]
   \<and> issues_token
       (fst (auth_verify (kiosk_env failing_processor) kiosk_meta (login_of ''1234'' None)
               (fst (run_auth_events race_events (almost_locked_store, [])))))"
  by code_simp

section \<open>Properties of session verification\<close>













end
